theory Spec2Isabelle
  imports Complex_Main
begin

section \<open>The model cache of \<open>whisper_bridge.py\<close>\<close>

text \<open>
  The module-level \<^verbatim>\<open>_model_cache = {}\<close> is a Python dict. A dict iterates in insertion
  order, so it is modelled as an association list with distinct keys whose order is the
  order of insertion: \<^verbatim>\<open>k in d\<close> and \<^verbatim>\<open>d[k]\<close> are \<open>map_of\<close>, \<^verbatim>\<open>next(iter(d))\<close> is the
  first key, \<^verbatim>\<open>del d[k]\<close> removes the pair of \<open>k\<close>, and \<^verbatim>\<open>d[k] = v\<close> overwrites in place when
  \<open>k\<close> is present and appends otherwise.
\<close>

type_synonym ('k, 'v) pydict = "('k \<times> 'v) list"

definition dict_contains :: "('k, 'v) pydict \<Rightarrow> 'k \<Rightarrow> bool" where
  "dict_contains d k = (map_of d k \<noteq> None)"

fun dict_del :: "('k, 'v) pydict \<Rightarrow> 'k \<Rightarrow> ('k, 'v) pydict" where
  "dict_del [] k = []"
| "dict_del ((k', v) # d) k = (if k' = k then d else (k', v) # dict_del d k)"

fun dict_set :: "('k, 'v) pydict \<Rightarrow> 'k \<Rightarrow> 'v \<Rightarrow> ('k, 'v) pydict" where
  "dict_set [] k v = [(k, v)]"
| "dict_set ((k', v') # d) k v =
     (if k' = k then (k, v) # d else (k', v') # dict_set d k v)"

text \<open>
  What the external \<^verbatim>\<open>whisper.load_model(model_name)\<close> does when it is called: it
  returns a model handle or raises. The handle type is left open.
\<close>

datatype 'm load_outcome = Loaded 'm | LoadRaised string

text \<open>
  \<^verbatim>\<open>load_model\<close> (lines 79 to 100). The global cache is passed in and returned; the
  second argument is what the external loader would do if it were called (it is called
  only on a miss). The result is \<open>None\<close> where the Python returns \<^verbatim>\<open>None\<close>.
  \<^verbatim>\<open>gc.collect()\<close> has no effect on the cache.
\<close>

definition load_model ::
  "(string, 'm) pydict \<Rightarrow> 'm load_outcome \<Rightarrow> string \<Rightarrow> 'm option \<times> (string, 'm) pydict" where
  "load_model cache loader model_name =
     (if dict_contains cache model_name then (map_of cache model_name, cache)
      else
        (case loader of
           LoadRaised e \<Rightarrow> (None, cache)
         | Loaded model \<Rightarrow>
             (let cache1 =
                    (if length cache \<ge> 2
                     then (let oldest_key = fst (hd cache) in dict_del cache oldest_key)
                     else cache)
              in (Some model, dict_set cache1 model_name model))))"

text \<open>
  A sequence of \<^verbatim>\<open>load_model\<close> calls in one process, each with the name asked for and
  the outcome the loader would have at that call. The cache after the sequence.
\<close>

fun load_models ::
  "(string, 'm) pydict \<Rightarrow> (string \<times> 'm load_outcome) list \<Rightarrow> (string, 'm) pydict" where
  "load_models cache [] = cache"
| "load_models cache ((model_name, loader) # calls) =
     load_models (snd (load_model cache loader model_name)) calls"

text \<open>
  The handles the loader hands out over a sequence of calls, in call order. With
  handles that are time stamps this list is the order in which entries can be inserted.
\<close>

fun loaded_handles :: "(string \<times> 'm load_outcome) list \<Rightarrow> 'm list" where
  "loaded_handles [] = []"
| "loaded_handles ((model_name, Loaded m) # calls) = m # loaded_handles calls"
| "loaded_handles ((model_name, LoadRaised e) # calls) = loaded_handles calls"

text \<open>The cache invariant: at most two entries, no key twice.\<close>

definition cache_ok :: "(string, 'm) pydict \<Rightarrow> bool" where
  "cache_ok cache = (length cache \<le> 2 \<and> distinct (map fst cache))"

section \<open>Python numbers\<close>

text \<open>
  Python floats are idealised as reals: the thresholds and the averages below are
  computed exactly. \<^verbatim>\<open>round(x, n)\<close> rounds to \<open>n\<close> decimals, a tie going to the even
  neighbour.
\<close>

definition round_half_even :: "real \<Rightarrow> int" where
  "round_half_even x =
     (let f = \<lfloor>x\<rfloor>; d = x - of_int f
      in if d < 1 / 2 then f else if 1 / 2 < d then f + 1 else if even f then f else f + 1)"

definition py_round :: "real \<Rightarrow> nat \<Rightarrow> real" where
  "py_round x n = of_int (round_half_even (x * 10 ^ n)) / 10 ^ n"

section \<open>The download progress monitor\<close>

text \<open>
  The two dicts printed on standard error after \<^verbatim>\<open>PROGRESS:\<close>: \<^verbatim>\<open>progress_data\<close> of
  the monitor and \<^verbatim>\<open>completion_data\<close> of \<^verbatim>\<open>download_model\<close>.
\<close>

datatype event =
    Progress (ev_model: string) (downloaded_bytes: int) (total_bytes: int)
      (percentage: real) (speed_mbps: real)
  | Complete (ev_model: string) (downloaded_bytes: int) (total_bytes: int)
      (percentage: real)

text \<open>The local variables of \<^verbatim>\<open>monitor_download_progress\<close> that live across iterations.\<close>

record monitor_state =
  last_size :: int
  last_update_time :: real
  speed_samples :: "real list"
  last_progress_update :: real

text \<open>
  What one iteration of the loop reads from outside: whether \<^verbatim>\<open>stop_event.is_set()\<close>,
  what the file system says about the model file (absent, a size, or
  \<^verbatim>\<open>os.path.getsize\<close> raising), and the value of \<^verbatim>\<open>time.time()\<close>.
\<close>

datatype file_reading = NoFile | FileSize nat | ReadFails

record poll =
  stop_is_set :: bool
  reading :: file_reading
  clock :: real

datatype loop_exit = StopSignal | NearComplete | Stalled | StillPolling

record iteration_result =
  emitted :: "event option"
  exit_by :: "loop_exit option"
  next_state :: monitor_state

text \<open>
  Line 160. The division is reached only when \<^verbatim>\<open>expected_size > 0\<close>; the loop below
  uses this value.
\<close>

definition percentage_of :: "int \<Rightarrow> int \<Rightarrow> real" where
  "percentage_of current_size expected_size =
     min (if expected_size > 0
          then real_of_int current_size / real_of_int expected_size * 100 else 0) 100"

text \<open>
  Line 160 again, with Python's division written as the operation that raises
  \<^verbatim>\<open>ZeroDivisionError\<close> on a zero divisor.
\<close>

datatype py_error = ZeroDivisionError

definition py_truediv :: "real \<Rightarrow> real \<Rightarrow> py_error + real" where
  "py_truediv a b = (if b = 0 then Inl ZeroDivisionError else Inr (a / b))"

definition percentage_checked :: "int \<Rightarrow> int \<Rightarrow> py_error + real" where
  "percentage_checked current_size expected_size =
     (if expected_size > 0
      then (case py_truediv (real_of_int current_size) (real_of_int expected_size) of
              Inl err \<Rightarrow> Inl err
            | Inr q \<Rightarrow> Inr (min (q * 100) 100))
      else Inr (min 0 100))"

text \<open>Lines 150 and 151: the throughput since the previous sample, in megabits per second.\<close>

definition throughput_mbps :: "int \<Rightarrow> int \<Rightarrow> real \<Rightarrow> real" where
  "throughput_mbps current_size previous_size time_diff =
     (let bytes_per_second = real_of_int (current_size - previous_size) / time_diff
      in (bytes_per_second * 8) / (1024 * 1024))"

text \<open>Lines 154 to 156: append, then drop the oldest sample when there are more than 10.\<close>

definition push_sample :: "real list \<Rightarrow> real \<Rightarrow> real list" where
  "push_sample samples s =
     (let samples1 = samples @ [s]
      in if length samples1 > 10 then tl samples1 else samples1)"

text \<open>
  The body of the \<^verbatim>\<open>try\<close> block (lines 140 to 186) once the file size and the time
  have been read. \<^verbatim>\<open>speed_mbps\<close> starts at 0 in every iteration. The guard of line 163
  subtracts \<^verbatim>\<open>last_progress_update\<close> from the time, and line 176 stores the percentage
  in that variable. A \<^verbatim>\<open>break\<close> leaves the loop before lines 185 and 186.
\<close>

definition monitor_iteration ::
  "string \<Rightarrow> int \<Rightarrow> monitor_state \<Rightarrow> int \<Rightarrow> real \<Rightarrow> iteration_result" where
  "monitor_iteration model_name expected_size st current_size current_time =
     (let time_diff = current_time - last_update_time st;
          grew = (last_size st > 0 \<and> time_diff > 0 \<and> current_size > last_size st);
          samples = (if grew
                     then push_sample (speed_samples st)
                            (throughput_mbps current_size (last_size st) time_diff)
                     else speed_samples st);
          speed = (if grew then sum_list samples / real (length samples) else 0);
          pct = percentage_of current_size expected_size;
          send = (current_time - last_progress_update st > 1 / 2
                  \<or> \<bar>pct - last_progress_update st\<bar> > 1);
          st1 = st\<lparr>speed_samples := samples,
                   last_progress_update := (if send then pct else last_progress_update st)\<rparr>;
          ev = (if send
                then Some (Progress model_name current_size expected_size (py_round pct 1)
                             (if speed > 0 then py_round speed 2 else 0))
                else None)
      in if real_of_int current_size \<ge> real_of_int expected_size * (95 / 100)
         then \<lparr>emitted = ev, exit_by = Some NearComplete, next_state = st1\<rparr>
         else if current_size = last_size st \<and> current_time - last_update_time st > 10
                 \<and> real_of_int current_size > real_of_int expected_size * (9 / 10)
         then \<lparr>emitted = ev, exit_by = Some Stalled, next_state = st1\<rparr>
         else \<lparr>emitted = ev, exit_by = None,
               next_state = st1\<lparr>last_size := current_size, last_update_time := current_time\<rparr>\<rparr>)"

definition sample :: "poll \<Rightarrow> int option" where
  "sample p = (case reading p of NoFile \<Rightarrow> Some 0 | FileSize n \<Rightarrow> Some (int n) | ReadFails \<Rightarrow> None)"

definition stamp :: "real \<Rightarrow> event option \<Rightarrow> (real \<times> event) list" where
  "stamp t ev = (case ev of None \<Rightarrow> [] | Some e \<Rightarrow> [(t, e)])"

text \<open>
  The \<^verbatim>\<open>while not stop_event.is_set()\<close> loop over the readings of successive
  iterations; \<^verbatim>\<open>time.sleep(0.5)\<close> lies between two of them. An exception inside the
  \<^verbatim>\<open>try\<close> is swallowed and the state is left as it was (\<^verbatim>\<open>os.path.getsize\<close> is the
  call that can raise; printing to standard error is taken to succeed). The loop has no
  bound of its own: when the readings run out before it stops, the result says
  \<open>StillPolling\<close>. Each printed event is returned with the clock value of its iteration.
\<close>

fun monitor_loop ::
  "string \<Rightarrow> int \<Rightarrow> monitor_state \<Rightarrow> poll list \<Rightarrow> (real \<times> event) list \<times> loop_exit" where
  "monitor_loop model_name expected_size st [] = ([], StillPolling)"
| "monitor_loop model_name expected_size st (p # ps) =
     (if stop_is_set p then ([], StopSignal)
      else
        (case sample p of
           None \<Rightarrow> monitor_loop model_name expected_size st ps
         | Some current_size \<Rightarrow>
             (let r = monitor_iteration model_name expected_size st current_size (clock p)
              in (case exit_by r of
                    Some x \<Rightarrow> (stamp (clock p) (emitted r), x)
                  | None \<Rightarrow>
                      (let rest = monitor_loop model_name expected_size (next_state r) ps
                       in (stamp (clock p) (emitted r) @ fst rest, snd rest))))))"

text \<open>Lines 133 to 136, with the value of \<^verbatim>\<open>time.time()\<close> at line 134.\<close>

definition initial_state :: "real \<Rightarrow> monitor_state" where
  "initial_state start_time =
     \<lparr>last_size = 0, last_update_time = start_time, speed_samples = [],
      last_progress_update = 0\<rparr>"

text \<open>
  What one iteration meets when the clock is not given but passes: the file reading,
  and the time in nanoseconds from the test of the \<^verbatim>\<open>while\<close> condition to the call of
  \<^verbatim>\<open>time.time()\<close> at line 144.
\<close>

record tick =
  tick_reading :: file_reading
  tick_lag :: nat

text \<open>
  The iterations as the loop meets them. The first test of the \<^verbatim>\<open>while\<close> condition is
  at the start time. An iteration reads the clock \<open>tick_lag\<close> after that test, and line
  191 then sleeps: the next test comes half a second after the reading (what the rest of
  the body and the sleep take beyond that is part of the next lag). The first argument
  tells whether \<^verbatim>\<open>stop_event\<close> is set at a given time. The clock is taken to advance
  with time, as it does unless it is set back.
\<close>

fun clocked :: "(real \<Rightarrow> bool) \<Rightarrow> real \<Rightarrow> tick list \<Rightarrow> poll list" where
  "clocked stop_set tested_at [] = []"
| "clocked stop_set tested_at (k # ks) =
     (let current_time = tested_at + real (tick_lag k) / 1000000000
      in \<lparr>stop_is_set = stop_set tested_at, reading = tick_reading k, clock = current_time\<rparr>
         # clocked stop_set (current_time + 1 / 2) ks)"

text \<open>
  \<^verbatim>\<open>monitor_download_progress\<close> (lines 125 to 191): the lookup of the model's URL
  raises \<^verbatim>\<open>KeyError\<close> for an unknown name (the result is \<open>None\<close>); otherwise the loop
  runs from the initial state, with \<^verbatim>\<open>time.sleep(0.5)\<close> at the end of every iteration.
\<close>

definition monitor_download_progress ::
  "(string \<rightharpoonup> string) \<Rightarrow> string \<Rightarrow> int \<Rightarrow> (real \<Rightarrow> bool) \<Rightarrow> real \<Rightarrow> tick list
     \<Rightarrow> ((real \<times> event) list \<times> loop_exit) option" where
  "monitor_download_progress models model_name expected_size stop_set start_time ticks =
     (case models model_name of
        None \<Rightarrow> None
      | Some model_url \<Rightarrow>
          Some (monitor_loop model_name expected_size (initial_state start_time)
                  (clocked stop_set start_time ticks)))"

text \<open>Successive readings of the clock are at least half a second apart.\<close>

fun sleep_spaced :: "poll list \<Rightarrow> bool" where
  "sleep_spaced [] = True"
| "sleep_spaced [p] = True"
| "sleep_spaced (p # q # ps) = (clock p + 1 / 2 \<le> clock q \<and> sleep_spaced (q # ps))"

text \<open>The file sizes the loop sees, one for each iteration that gets to read one.\<close>

fun observed_sizes :: "poll list \<Rightarrow> int list" where
  "observed_sizes [] = []"
| "observed_sizes (p # ps) =
     (case sample p of None \<Rightarrow> observed_sizes ps | Some n \<Rightarrow> n # observed_sizes ps)"

text \<open>Two events printed one after the other, anywhere in the sequence.\<close>

fun consecutive :: "'a list \<Rightarrow> ('a \<times> 'a) list" where
  "consecutive (x # y # xs) = (x, y) # consecutive (y # xs)"
| "consecutive xs = []"

section \<open>Results and the file system\<close>

text \<open>
  Every operation returns a dict that \<^verbatim>\<open>main\<close> prints with \<^verbatim>\<open>json.dumps\<close>; the dicts
  are kept as they are built, key by key. A string is a list of characters with code
  points below 256.
\<close>

datatype json =
    JString string | JInt int | JFloat real | JBool bool
  | JArray "json list" | JObject "(string \<times> json) list"

type_synonym result = "(string, json) pydict"

text \<open>Python truth of a value, as \<^verbatim>\<open>if result.get("success")\<close> reads it.\<close>

fun truthy :: "json option \<Rightarrow> bool" where
  "truthy None = False"
| "truthy (Some (JBool b)) = b"
| "truthy (Some (JInt i)) = (i \<noteq> 0)"
| "truthy (Some (JFloat x)) = (x \<noteq> 0)"
| "truthy (Some (JString t)) = (t \<noteq> [])"
| "truthy (Some (JArray js)) = (js \<noteq> [])"
| "truthy (Some (JObject kvs)) = (kvs \<noteq> [])"

text \<open>
  The outside world of the lifecycle operations: the table \<^verbatim>\<open>whisper._MODELS\<close> of the
  external package (name to URL), the expanded cache directory, the files on disk with
  their sizes, the content length a \<^verbatim>\<open>HEAD\<close> request for a URL yields (when the
  request succeeds with status 200 and a header that parses), and the message with
  which \<^verbatim>\<open>os.remove\<close> raises for a path, if it does.
\<close>

record world =
  whisper_MODELS :: "string \<rightharpoonup> string"
  cache_dir :: string
  files :: "string \<rightharpoonup> nat"
  content_length :: "string \<rightharpoonup> int"
  remove_raises :: "string \<rightharpoonup> string"

definition basename :: "string \<Rightarrow> string" where
  "basename path = rev (takeWhile (\<lambda>c. c \<noteq> CHR ''/'') (rev path))"

definition path_join :: "string \<Rightarrow> string \<Rightarrow> string" where
  "path_join a b =
     (if b \<noteq> [] \<and> hd b = CHR ''/'' then b
      else if a = [] \<or> last a = CHR ''/'' then a @ b
      else a @ ''/'' @ b)"

text \<open>
  Lines 200 to 202 (and 280 to 282, 325 to 327): \<open>None\<close> when the lookup in
  \<^verbatim>\<open>whisper._MODELS\<close> raises \<^verbatim>\<open>KeyError\<close>.
\<close>

definition model_file :: "world \<Rightarrow> string \<Rightarrow> string option" where
  "model_file w model_name =
     (case whisper_MODELS w model_name of
        None \<Rightarrow> None
      | Some model_url \<Rightarrow> Some (path_join (cache_dir w) (basename model_url)))"

text \<open>
  \<^verbatim>\<open>repr\<close> of a string: double quotes when the string holds an apostrophe and no
  double quote, single quotes otherwise; the backslash and the chosen quote are escaped
  with a backslash, tab, line feed and carriage return are written with their letters,
  and every other character that is not printable as \<^verbatim>\<open>\x\<close> and two hexadecimal
  digits. A string is a list of characters with code points below 256.
\<close>

definition hex_digit :: "nat \<Rightarrow> char" where
  "hex_digit n = (if n < 10 then char_of (48 + n) else char_of (87 + n))"

definition printable :: "char \<Rightarrow> bool" where
  "printable c =
     (let n = (of_char c :: nat) in (32 \<le> n \<and> n < 127) \<or> (161 \<le> n \<and> n \<noteq> 173))"

definition repr_char :: "char \<Rightarrow> char \<Rightarrow> string" where
  "repr_char q c =
     (if c = q \<or> c = CHR 0x5C then [CHR 0x5C, c]
      else if c = CHR 0x09 then [CHR 0x5C, CHR ''t'']
      else if c = CHR 0x0A then [CHR 0x5C, CHR ''n'']
      else if c = CHR 0x0D then [CHR 0x5C, CHR ''r'']
      else if printable c then [c]
      else [CHR 0x5C, CHR ''x'', hex_digit (of_char c div 16), hex_digit (of_char c mod 16)])"

definition py_repr :: "string \<Rightarrow> string" where
  "py_repr t =
     (let q = (if CHR 0x27 \<in> set t \<and> CHR 0x22 \<notin> set t then CHR 0x22 else CHR 0x27)
      in [q] @ concat (map (repr_char q) t) @ [q])"

text \<open>\<^verbatim>\<open>str(e)\<close> of the \<^verbatim>\<open>KeyError\<close>: the \<^verbatim>\<open>repr\<close> of the name.\<close>

definition key_error_str :: "string \<Rightarrow> string" where
  "key_error_str model_name = py_repr model_name"

definition approximate_sizes :: "(string, int) pydict" where
  "approximate_sizes =
     [(''tiny'', 39 * 1024 * 1024), (''base'', 74 * 1024 * 1024),
      (''small'', 244 * 1024 * 1024), (''medium'', 769 * 1024 * 1024),
      (''large'', 1550 * 1024 * 1024), (''turbo'', 809 * 1024 * 1024)]"

text \<open>\<^verbatim>\<open>get_expected_model_size\<close> (lines 102 to 123).\<close>

definition get_expected_model_size :: "world \<Rightarrow> string \<Rightarrow> int" where
  "get_expected_model_size w model_name =
     (let fallback = (case map_of approximate_sizes model_name of
                        Some n \<Rightarrow> n | None \<Rightarrow> 100 * 1024 * 1024)
      in case whisper_MODELS w model_name of
           None \<Rightarrow> fallback
         | Some model_url \<Rightarrow>
             (case content_length w model_url of Some n \<Rightarrow> n | None \<Rightarrow> fallback))"

section \<open>The download orchestrator\<close>

text \<open>
  What the blocking \<^verbatim>\<open>whisper.load_model(model_name)\<close> of line 227 does, whether the
  monitor thread is still alive when it is asked at line 233, and the files on disk
  after the call.
\<close>

datatype download_call = DownloadReturns | DownloadRaises string | DownloadInterrupted

record download_run =
  blocking_call :: download_call
  monitor_alive :: bool
  files_after :: "string \<rightharpoonup> nat"

text \<open>
  What \<^verbatim>\<open>download_model\<close> itself does to the monitor thread and to standard error, in
  program order. The monitor's own \<^verbatim>\<open>progress\<close> lines come from the other thread and
  are not part of this list.
\<close>

datatype action =
    StartMonitor string int
  | CallLoadModel string
  | SetStopEvent
  | JoinMonitor nat
  | PrintProgress event

definition downloaded_result :: "string \<Rightarrow> string \<Rightarrow> int \<Rightarrow> result" where
  "downloaded_result model_name path file_size =
     [(''model'', JString model_name), (''downloaded'', JBool True), (''path'', JString path),
      (''size_bytes'', JInt file_size),
      (''size_mb'', JFloat (py_round (real_of_int file_size / (1024 * 1024)) 1)),
      (''success'', JBool True)]"

definition download_failed :: "string \<Rightarrow> string \<Rightarrow> result" where
  "download_failed model_name msg =
     [(''model'', JString model_name), (''downloaded'', JBool False), (''error'', JString msg),
      (''success'', JBool False)]"

text \<open>\<^verbatim>\<open>download_model\<close> (lines 193 to 275).\<close>

definition download_model :: "world \<Rightarrow> download_run \<Rightarrow> string \<Rightarrow> result \<times> action list" where
  "download_model w run model_name =
     (case model_file w model_name of
        None \<Rightarrow> (download_failed model_name (key_error_str model_name), [SetStopEvent])
      | Some path \<Rightarrow>
          (case files w path of
             Some file_size \<Rightarrow> (downloaded_result model_name path (int file_size), [])
           | None \<Rightarrow>
               (let expected_size = get_expected_model_size w model_name;
                    started = [StartMonitor model_name expected_size, CallLoadModel model_name]
                in case blocking_call run of
                     DownloadInterrupted \<Rightarrow>
                       (download_failed model_name ''Download interrupted by user'',
                        started @ [SetStopEvent])
                   | DownloadRaises msg \<Rightarrow>
                       (download_failed model_name msg, started @ [SetStopEvent])
                   | DownloadReturns \<Rightarrow>
                       (let final_size = (case files_after run path of
                                            Some n \<Rightarrow> int n | None \<Rightarrow> 0);
                            completion_data = Complete model_name final_size expected_size 100
                        in (downloaded_result model_name path final_size,
                            started @ [SetStopEvent]
                            @ (if monitor_alive run then [JoinMonitor 1] else [])
                            @ [PrintProgress completion_data])))))"

text \<open>The \<^verbatim>\<open>complete\<close> events among the actions of one invocation.\<close>

fun is_complete :: "action \<Rightarrow> bool" where
  "is_complete (PrintProgress (Complete n d t p)) = True"
| "is_complete a = False"

text \<open>
  The monitor thread of one invocation in time: the clock when the thread starts (line
  134), the clock when the blocking call of line 227 ends and \<^verbatim>\<open>stop_event.set()\<close> runs
  (on its return at line 230, or in a handler at line 261 or 269), and what the
  iterations of the monitor meet.
\<close>

record thread_run =
  started_at :: real
  ended_at :: real
  monitor_ticks :: "tick list"

text \<open>
  What the monitor thread prints, each line with the clock of its iteration: the thread
  runs \<^verbatim>\<open>monitor_download_progress\<close> with the expected size, and finds the stop event
  set from \<open>ended_at\<close> on.
\<close>

definition monitor_events :: "world \<Rightarrow> thread_run \<Rightarrow> string \<Rightarrow> (real \<times> event) list" where
  "monitor_events w tr model_name =
     (case monitor_download_progress (whisper_MODELS w) model_name
             (get_expected_model_size w model_name) (\<lambda>t. ended_at tr \<le> t)
             (started_at tr) (monitor_ticks tr) of
        None \<Rightarrow> []
      | Some r \<Rightarrow> fst r)"

fun starts_monitor :: "action \<Rightarrow> bool" where
  "starts_monitor (StartMonitor n e) = True"
| "starts_monitor a = False"

fun join_wait :: "action list \<Rightarrow> real" where
  "join_wait [] = 0"
| "join_wait (JoinMonitor timeout # acts) = real timeout + join_wait acts"
| "join_wait (a # acts) = join_wait acts"

fun printed :: "action list \<Rightarrow> event list" where
  "printed [] = []"
| "printed (PrintProgress e # acts) = e # printed acts"
| "printed (a # acts) = printed acts"

text \<open>
  Standard error of one invocation of \<^verbatim>\<open>download_model\<close>, both threads together. After
  \<^verbatim>\<open>stop_event.set()\<close> the main thread waits in \<^verbatim>\<open>join(timeout=1)\<close> until the monitor
  thread ends, and for 1 second at most, and prints its own line after that: the lines
  of the monitor whose iteration read the clock by the end of the wait come before it,
  those of an iteration still under way come after it. Without a line of its own
  (lines 260 to 275) standard error holds the lines of the monitor only. An iteration
  is taken to print at its clock reading (lines 144 to 176 take no time), and the
  monitor thread to run until its loop ends: it is a daemon thread, so a process that
  exits earlier cuts its remaining lines off.
\<close>

definition download_stderr :: "world \<Rightarrow> download_run \<Rightarrow> thread_run \<Rightarrow> string \<Rightarrow> event list" where
  "download_stderr w run tr model_name =
     (let acts = snd (download_model w run model_name)
      in if list_ex starts_monitor acts
         then (let evs = monitor_events w tr model_name;
                   wait_end = ended_at tr + join_wait acts
               in map snd (takeWhile (\<lambda>(t, e). t \<le> wait_end) evs)
                  @ printed acts
                  @ map snd (dropWhile (\<lambda>(t, e). t \<le> wait_end) evs))
         else printed acts)"

fun is_complete_event :: "event \<Rightarrow> bool" where
  "is_complete_event (Complete n d t p) = True"
| "is_complete_event e = False"

section \<open>Check, list and delete\<close>

text \<open>\<^verbatim>\<open>check_model_status\<close> (lines 277 to 305).\<close>

definition check_model_status :: "world \<Rightarrow> string \<Rightarrow> result" where
  "check_model_status w model_name =
     (case model_file w model_name of
        None \<Rightarrow>
          [(''model'', JString model_name), (''error'', JString (key_error_str model_name)),
           (''success'', JBool False)]
      | Some path \<Rightarrow>
          (case files w path of
             Some file_size \<Rightarrow> downloaded_result model_name path (int file_size)
           | None \<Rightarrow>
               [(''model'', JString model_name), (''downloaded'', JBool False),
                (''success'', JBool True)]))"

text \<open>\<^verbatim>\<open>list_models\<close> (lines 307 to 320).\<close>

definition list_models :: "world \<Rightarrow> result" where
  "list_models w =
     [(''models'', JArray (map (\<lambda>model. JObject (check_model_status w model))
                            [''tiny'', ''base'', ''small'', ''medium'', ''large'', ''turbo''])),
      (''cache_dir'', JString (cache_dir w)), (''success'', JBool True)]"

definition delete_failed :: "string \<Rightarrow> string \<Rightarrow> result" where
  "delete_failed model_name msg =
     [(''model'', JString model_name), (''deleted'', JBool False), (''error'', JString msg),
      (''success'', JBool False)]"

text \<open>
  \<^verbatim>\<open>delete_model\<close> (lines 322 to 352), with the world after the call. An exception of
  \<^verbatim>\<open>os.remove\<close> leaves the file where it is and comes back as a result.
\<close>

definition delete_model :: "world \<Rightarrow> string \<Rightarrow> result \<times> world" where
  "delete_model w model_name =
     (case model_file w model_name of
        None \<Rightarrow> (delete_failed model_name (key_error_str model_name), w)
      | Some path \<Rightarrow>
          (case files w path of
             Some file_size \<Rightarrow>
               (case remove_raises w path of
                  Some msg \<Rightarrow> (delete_failed model_name msg, w)
                | None \<Rightarrow>
                    ([(''model'', JString model_name), (''deleted'', JBool True),
                      (''freed_bytes'', JInt (int file_size)),
                      (''freed_mb'', JFloat (py_round (real file_size / (1024 * 1024)) 1)),
                      (''success'', JBool True)],
                     w\<lparr>files := (files w)(path := None)\<rparr>))
           | None \<Rightarrow> (delete_failed model_name ''Model not found'', w)))"

section \<open>Transcription, the FFmpeg check and the command line\<close>

text \<open>
  What \<^verbatim>\<open>model.transcribe(audio_path, **options)\<close> does: it raises, or it returns a
  dict of which the code reads the keys \<^verbatim>\<open>text\<close> and \<^verbatim>\<open>language\<close>.
\<close>

record whisper_result =
  text_value :: "string option"
  language_value :: "string option"

datatype transcribe_outcome = Transcribed whisper_result | TranscribeRaised string

text \<open>The characters below 256 that \<^verbatim>\<open>str.strip()\<close> removes.\<close>

definition is_space :: "char \<Rightarrow> bool" where
  "is_space c = (c \<in> set [CHR '' '', CHR 0x09, CHR 0x0A, CHR 0x0B, CHR 0x0C, CHR 0x0D,
                           CHR 0x1C, CHR 0x1D, CHR 0x1E, CHR 0x1F, CHR 0x85, CHR 0xA0])"

definition strip :: "string \<Rightarrow> string" where
  "strip t = rev (dropWhile is_space (rev (dropWhile is_space t)))"

text \<open>
  \<^verbatim>\<open>transcribe_audio\<close> (lines 354 to 383), with the cache after the call. The language
  option is passed on only when it is a non-empty string.
\<close>

definition transcribe_audio ::
  "(string, 'm) pydict \<Rightarrow> 'm load_outcome \<Rightarrow> ('m \<Rightarrow> string \<Rightarrow> string option \<Rightarrow> transcribe_outcome)
     \<Rightarrow> string \<Rightarrow> string \<Rightarrow> string option \<Rightarrow> result \<times> (string, 'm) pydict" where
  "transcribe_audio cache loader transcribe audio_path model_name lang =
     (case load_model cache loader model_name of
        (None, cache1) \<Rightarrow>
          ([(''error'', JString ''Failed to load Whisper model''), (''success'', JBool False)],
           cache1)
      | (Some model, cache1) \<Rightarrow>
          (let option_language = (case lang of None \<Rightarrow> None
                                  | Some l \<Rightarrow> if l = [] then None else Some l)
           in case transcribe model audio_path option_language of
                TranscribeRaised msg \<Rightarrow>
                  ([(''error'', JString msg), (''success'', JBool False)], cache1)
              | Transcribed r \<Rightarrow>
                  ([(''text'', JString (strip (case text_value r of None \<Rightarrow> [] | Some t \<Rightarrow> t))),
                    (''language'', JString (case language_value r of
                                             None \<Rightarrow> ''unknown'' | Some l \<Rightarrow> l)),
                    (''success'', JBool True)], cache1)))"

text \<open>Decimal digits of a return code, for the message of line 403.\<close>

fun digits :: "nat \<Rightarrow> string" where
  "digits n =
     (if n < 10 then [char_of (48 + n)] else digits (n div 10) @ [char_of (48 + n mod 10)])"

declare digits.simps [simp del]

definition str_int :: "int \<Rightarrow> string" where
  "str_int i = (if i < 0 then ''-'' @ digits (nat (- i)) else digits (nat i))"

text \<open>What \<^verbatim>\<open>subprocess.run\<close> does at line 390.\<close>

datatype ffmpeg_run =
    FfmpegExited int string | FfmpegTimeout | FfmpegNotFound | FfmpegRaised string

definition ffmpeg_failed :: "string \<Rightarrow> result" where
  "ffmpeg_failed msg =
     [(''available'', JBool False), (''error'', JString msg), (''success'', JBool False)]"

text \<open>\<^verbatim>\<open>check_ffmpeg\<close> (lines 385 to 423); the first argument is the module's \<^verbatim>\<open>ffmpeg_path\<close>.\<close>

definition check_ffmpeg :: "string option \<Rightarrow> ffmpeg_run \<Rightarrow> result" where
  "check_ffmpeg ffmpeg_path run =
     (let path = (case ffmpeg_path of None \<Rightarrow> ''ffmpeg''
                  | Some p \<Rightarrow> if p = [] then ''ffmpeg'' else p)
      in case run of
           FfmpegExited returncode out \<Rightarrow>
             (if returncode = 0
              then [(''available'', JBool True), (''path'', JString path),
                    (''version'', JString (if out \<noteq> []
                                           then takeWhile (\<lambda>c. c \<noteq> CHR 0x0A) out
                                           else ''Unknown'')),
                    (''success'', JBool True)]
              else ffmpeg_failed (''FFmpeg returned code '' @ str_int returncode))
         | FfmpegTimeout \<Rightarrow> ffmpeg_failed ''FFmpeg check timed out''
         | FfmpegNotFound \<Rightarrow> ffmpeg_failed ''FFmpeg not found in PATH''
         | FfmpegRaised msg \<Rightarrow> ffmpeg_failed msg)"

text \<open>
  The command line as \<^verbatim>\<open>argparse\<close> reads it: the values given for the options and
  for the positional argument, \<open>None\<close> where one is not given. \<^verbatim>\<open>parse_args\<close> (line
  439) fills in the defaults and admits only the choices of lines 428, 432 and 436; on
  any other value it prints its usage message and ends the process with code 2 (the
  result is \<open>None\<close>). Below come the parsed arguments and all that one process meets
  outside itself.
\<close>

record command_line =
  given_mode :: "string option"
  given_audio_file :: "string option"
  given_model :: "string option"
  given_language :: "string option"
  given_output_format :: "string option"

datatype cli_mode = Transcribe | Download | Check | ListModels | Delete | CheckFfmpeg

datatype format = Json | Text

record args =
  mode :: cli_mode
  audio_file :: "string option"
  model :: string
  language :: "string option"
  output_format :: format

definition parse_args :: "command_line \<Rightarrow> args option" where
  "parse_args cl =
     (let mode_text = (case given_mode cl of None \<Rightarrow> ''transcribe'' | Some t \<Rightarrow> t);
          model_text = (case given_model cl of None \<Rightarrow> ''base'' | Some t \<Rightarrow> t);
          format_text = (case given_output_format cl of None \<Rightarrow> ''json'' | Some t \<Rightarrow> t)
      in case map_of [(''transcribe'', Transcribe), (''download'', Download), (''check'', Check),
                      (''list'', ListModels), (''delete'', Delete),
                      (''check-ffmpeg'', CheckFfmpeg)] mode_text of
           None \<Rightarrow> None
         | Some m \<Rightarrow>
             if model_text \<notin> set [''tiny'', ''base'', ''small'', ''medium'', ''large'', ''turbo'']
             then None
             else (case map_of [(''json'', Json), (''text'', Text)] format_text of
                     None \<Rightarrow> None
                   | Some f \<Rightarrow>
                       Some \<lparr>mode = m, audio_file = given_audio_file cl, model = model_text,
                             language = given_language cl, output_format = f\<rparr>))"

record 'm process =
  proc_world :: world
  proc_download :: download_run
  proc_thread :: thread_run
  proc_loader :: "'m load_outcome"
  proc_transcribe :: "'m \<Rightarrow> string \<Rightarrow> string option \<Rightarrow> transcribe_outcome"
  proc_ffmpeg_path :: "string option"
  proc_ffmpeg :: ffmpeg_run

datatype out_line = JsonLine result | TextLine string | ProgressLine event | UsageError

record outcome =
  stdout :: "out_line list"
  stderr :: "out_line list"
  exit_code :: int
  operation_result :: "result option"

definition json_exit :: "result \<Rightarrow> out_line list \<Rightarrow> int \<Rightarrow> outcome" where
  "json_exit r err code =
     \<lparr>stdout = [JsonLine r], stderr = err, exit_code = code, operation_result = Some r\<rparr>"

definition str_of :: "json option \<Rightarrow> string \<Rightarrow> string" where
  "str_of j dflt = (case j of Some (JString t) \<Rightarrow> t | _ \<Rightarrow> dflt)"

text \<open>
  Lines 441 to 485 of \<^verbatim>\<open>main\<close>, after \<^verbatim>\<open>parse_args\<close>. The process ends with code 1 at a
  \<^verbatim>\<open>sys.exit(1)\<close> and with code 0 when \<^verbatim>\<open>main\<close> returns. The model cache of a fresh
  process is empty. \<open>operation_result\<close> is the dict the mode produced.
\<close>

definition dispatch :: "args \<Rightarrow> 'm process \<Rightarrow> outcome" where
  "dispatch a env =
     (case mode a of
        Download \<Rightarrow>
          (let r = download_model (proc_world env) (proc_download env) (model a)
           in json_exit (fst r)
                (map ProgressLine
                   (download_stderr (proc_world env) (proc_download env) (proc_thread env)
                      (model a))) 0)
      | Check \<Rightarrow> json_exit (check_model_status (proc_world env) (model a)) [] 0
      | ListModels \<Rightarrow> json_exit (list_models (proc_world env)) [] 0
      | Delete \<Rightarrow> json_exit (fst (delete_model (proc_world env) (model a))) [] 0
      | CheckFfmpeg \<Rightarrow> json_exit (check_ffmpeg (proc_ffmpeg_path env) (proc_ffmpeg env)) [] 0
      | Transcribe \<Rightarrow>
          (case audio_file a of
             None \<Rightarrow>
               json_exit [(''error'', JString ''Audio file required for transcription mode''),
                          (''success'', JBool False)] [] 1
           | Some path \<Rightarrow>
               if path = []
               then json_exit [(''error'', JString ''Audio file required for transcription mode''),
                               (''success'', JBool False)] [] 1
               else if files (proc_world env) path = None
               then json_exit [(''error'', JString (''Audio file not found: '' @ path)),
                               (''success'', JBool False)] [] 1
               else
                 (let r = fst (transcribe_audio [] (proc_loader env) (proc_transcribe env)
                                 path (model a) (language a))
                  in if output_format a = Json then json_exit r [] 0
                     else if truthy (map_of r ''success'')
                     then \<lparr>stdout = [TextLine (str_of (map_of r ''text'') [])], stderr = [],
                           exit_code = 0, operation_result = Some r\<rparr>
                     else \<lparr>stdout = [],
                           stderr = [TextLine (''Error: ''
                                       @ str_of (map_of r ''error'') ''Unknown error'')],
                           exit_code = 1, operation_result = Some r\<rparr>)))"

text \<open>
  \<^verbatim>\<open>main\<close> (lines 425 to 485): a command line that \<^verbatim>\<open>parse_args\<close> refuses ends the
  process with code 2 before any operation runs.
\<close>

definition main :: "command_line \<Rightarrow> 'm process \<Rightarrow> outcome" where
  "main cl env =
     (case parse_args cl of
        None \<Rightarrow> \<lparr>stdout = [], stderr = [UsageError], exit_code = 2, operation_result = None\<rparr>
      | Some a \<Rightarrow> dispatch a env)"

text \<open>The success flag of the result of a process; false when there is no result.\<close>

definition succeeded :: "outcome \<Rightarrow> bool" where
  "succeeded out =
     (case operation_result out of None \<Rightarrow> False | Some r \<Rightarrow> truthy (map_of r ''success''))"

text \<open>
  The two checks of lines 464 and 469: no audio file argument (or an empty one), or a
  path that does not exist.
\<close>

definition audio_missing :: "args \<Rightarrow> 'm process \<Rightarrow> bool" where
  "audio_missing a env =
     (case audio_file a of None \<Rightarrow> True
      | Some path \<Rightarrow> path = [] \<or> files (proc_world env) path = None)"

section \<open>Example inputs\<close>

text \<open>
  Concrete worlds, runs and command lines at which the theorems below are evaluated:
  a world where only \<^verbatim>\<open>tiny\<close> is known and nothing is on disk, the same world with
  the model file of 1000 bytes present, a process whose loader raises, command lines
  for a transcription and for a check of an unknown model, and a download call that
  raises or returns.
\<close>

definition example_world :: world where
  "example_world =
     \<lparr>whisper_MODELS = [''tiny'' \<mapsto> ''https://models.example/whisper/tiny.pt''],
      cache_dir = ''/home/user/.cache/whisper'', files = Map.empty,
      content_length = Map.empty, remove_raises = Map.empty\<rparr>"

definition downloaded_world :: world where
  "downloaded_world =
     example_world\<lparr>files := [''/home/user/.cache/whisper/tiny.pt'' \<mapsto> 1000]\<rparr>"

definition failing_process :: "nat process" where
  "failing_process =
     \<lparr>proc_world = example_world\<lparr>files := [''/tmp/a.wav'' \<mapsto> 4096]\<rparr>,
      proc_download = \<lparr>blocking_call = DownloadReturns, monitor_alive = False,
                       files_after = Map.empty\<rparr>,
      proc_thread = \<lparr>started_at = 1000, ended_at = 1001, monitor_ticks = []\<rparr>,
      proc_loader = LoadRaised ''out of memory'',
      proc_transcribe = (\<lambda>m p l. TranscribeRaised ''not reached''),
      proc_ffmpeg_path = None, proc_ffmpeg = FfmpegNotFound\<rparr>"

definition transcribe_args :: "format \<Rightarrow> args" where
  "transcribe_args fmt =
     \<lparr>mode = Transcribe, audio_file = Some ''/tmp/a.wav'', model = ''base'',
      language = None, output_format = fmt\<rparr>"

definition transcribe_command :: "string \<Rightarrow> command_line" where
  "transcribe_command format_text =
     \<lparr>given_mode = None, given_audio_file = Some ''/tmp/a.wav'', given_model = None,
      given_language = None, given_output_format = Some format_text\<rparr>"

definition check_huge_command :: command_line where
  "check_huge_command =
     \<lparr>given_mode = Some ''check'', given_audio_file = None, given_model = Some ''huge'',
      given_language = None, given_output_format = None\<rparr>"

definition raising_run :: download_run where
  "raising_run = \<lparr>blocking_call = DownloadRaises ''Connection reset'', monitor_alive = True,
                  files_after = Map.empty\<rparr>"

definition returning_run :: download_run where
  "returning_run = \<lparr>blocking_call = DownloadReturns, monitor_alive = True,
                  files_after = [''/home/user/.cache/whisper/tiny.pt'' \<mapsto> 1000]\<rparr>"

text \<open>
  Two monitor threads started at clock 1000 beside a blocking call that ends at 1000.5.
  In the first the one iteration under way reads the clock after 0.2 seconds. In the
  second it is held up for 1.501 seconds (in \<^verbatim>\<open>os.path.getsize\<close>, say): the wait of 1
  second is over at 1001.5, a thousandth of a second before.
\<close>

definition prompt_thread :: thread_run where
  "prompt_thread =
     \<lparr>started_at = 1000, ended_at = 2001 / 2,
      monitor_ticks = [\<lparr>tick_reading = FileSize 1000, tick_lag = 200000000\<rparr>,
                       \<lparr>tick_reading = FileSize 1000, tick_lag = 0\<rparr>]\<rparr>"

definition late_thread :: thread_run where
  "late_thread =
     \<lparr>started_at = 1000, ended_at = 2001 / 2,
      monitor_ticks = [\<lparr>tick_reading = FileSize 1000, tick_lag = 1501000000\<rparr>,
                       \<lparr>tick_reading = FileSize 1000, tick_lag = 0\<rparr>]\<rparr>"

text \<open>
  Readings of a download of a 4 MiB file that grows by 1 MiB and then pauses, and of a
  download that stays at 920 of 1000 expected bytes over 24 iterations half a second
  apart (11.5 seconds from the first reading to the last).
\<close>

definition growing_polls :: "poll list" where
  "growing_polls =
     [\<lparr>stop_is_set = False, reading = FileSize 1048576, clock = 2001 / 2\<rparr>,
      \<lparr>stop_is_set = False, reading = FileSize 2097152, clock = 1001\<rparr>,
      \<lparr>stop_is_set = False, reading = FileSize 2097152, clock = 2003 / 2\<rparr>]"

definition stalled_polls :: "poll list" where
  "stalled_polls =
     map (\<lambda>k. \<lparr>stop_is_set = False, reading = FileSize 920, clock = 1000 + real k / 2\<rparr>)
       [1..<25]"

text \<open>The growing download again, as the ticks of a monitor started at clock 1000.\<close>

definition growing_ticks :: "tick list" where
  "growing_ticks =
     [\<lparr>tick_reading = FileSize 1048576, tick_lag = 500000000\<rparr>,
      \<lparr>tick_reading = FileSize 2097152, tick_lag = 0\<rparr>,
      \<lparr>tick_reading = FileSize 2097152, tick_lag = 0\<rparr>]"

text \<open>
  Readings in which every iteration gets a file size and follows the previous one (the
  first: the start of the monitor) by at most 10 seconds.
\<close>

fun steady :: "real \<Rightarrow> poll list \<Rightarrow> bool" where
  "steady t [] = True"
| "steady t (p # ps) = (reading p \<noteq> ReadFails \<and> clock p - t \<le> 10 \<and> steady (clock p) ps)"

section \<open>Properties of the model cache\<close>

lemma dict_del_hd: "dict_del (kv # d) (fst kv) = d"
  by (cases kv) simp

lemma dict_set_fresh: "map_of d k = None \<Longrightarrow> dict_set d k v = d @ [(k, v)]"
  by (induction d) (auto split: if_splits)

lemma map_of_tl_fresh:
  "map_of d k = None \<Longrightarrow> distinct (map fst d) \<Longrightarrow> map_of (tl d) k = None"
  by (cases d) (auto split: if_splits)

lemma load_model_miss_full:
  assumes "map_of cache model_name = None" and "length cache \<ge> 2"
    and "distinct (map fst cache)"
  shows "load_model cache (Loaded m) model_name = (Some m, tl cache @ [(model_name, m)])"
proof -
  obtain kv rest where c: "cache = kv # rest"
    using assms(2) by (cases cache) auto
  have "map_of rest model_name = None"
    using map_of_tl_fresh [OF assms(1) assms(3)] c by simp
  then show ?thesis
    using assms(1) assms(2) c
    by (simp add: load_model_def dict_contains_def dict_del_hd dict_set_fresh
        del: dict_del.simps)
qed

lemma load_model_miss_room:
  assumes "map_of cache model_name = None" and "length cache < 2"
  shows "load_model cache (Loaded m) model_name = (Some m, cache @ [(model_name, m)])"
  using assms by (simp add: load_model_def dict_contains_def dict_set_fresh)

lemma load_model_hit:
  assumes "map_of cache model_name = Some m"
  shows "load_model cache loader model_name = (Some m, cache)"
  using assms by (simp add: load_model_def dict_contains_def)

lemma load_model_raised:
  assumes "map_of cache model_name = None"
  shows "load_model cache (LoadRaised e) model_name = (None, cache)"
  using assms by (simp add: load_model_def dict_contains_def)

lemma load_model_cache_ok:
  assumes "cache_ok cache"
  shows "cache_ok (snd (load_model cache loader model_name))"
proof (cases "map_of cache model_name")
  case (Some m)
  then show ?thesis using assms by (simp add: load_model_hit)
next
  case None
  have fresh: "model_name \<notin> fst ` set cache"
    using None by (simp add: map_of_eq_None_iff)
  show ?thesis
  proof (cases loader)
    case (LoadRaised e)
    then show ?thesis using None assms by (simp add: load_model_raised)
  next
    case (Loaded m)
    show ?thesis
    proof (cases "length cache \<ge> 2")
      case True
      have d: "distinct (map fst cache)" using assms by (simp add: cache_ok_def)
      have "model_name \<notin> fst ` set (tl cache)"
        using fresh by (cases cache) auto
      moreover have "distinct (map fst (tl cache))"
        using d by (cases cache) auto
      moreover have "length (tl cache) \<le> 1"
        using assms by (cases cache) (auto simp: cache_ok_def)
      ultimately show ?thesis
        using Loaded load_model_miss_full [OF None True d]
        by (simp add: cache_ok_def)
    next
      case False
      then have "length cache < 2" by simp
      then show ?thesis
        using Loaded load_model_miss_room [OF None] fresh assms
        by (simp add: cache_ok_def)
    qed
  qed
qed

lemma load_models_cache_ok:
  "cache_ok cache \<Longrightarrow> cache_ok (load_models cache calls)"
  by (induction calls arbitrary: cache) (auto simp: load_model_cache_ok)

lemma load_model_insertion_order:
  fixes cache :: "(string, 'm::linorder) pydict"
  assumes "sorted_wrt (<) (map snd cache @ loaded_handles ((model_name, loader) # calls))"
    and "cache_ok cache"
  shows "sorted_wrt (<)
           (map snd (snd (load_model cache loader model_name)) @ loaded_handles calls)"
proof (cases "map_of cache model_name")
  case (Some m')
  then show ?thesis
    using assms(1) by (cases loader) (auto simp: load_model_hit sorted_wrt_append)
next
  case None
  show ?thesis
  proof (cases loader)
    case (LoadRaised e)
    then show ?thesis using None assms(1) by (simp add: load_model_raised)
  next
    case (Loaded m)
    show ?thesis
    proof (cases "length cache \<ge> 2")
      case True
      have d: "distinct (map fst cache)" using assms(2) by (simp add: cache_ok_def)
      have "sorted_wrt (<) (map snd (tl cache) @ m # loaded_handles calls)"
        using assms(1) Loaded by (cases cache) (auto simp: sorted_wrt_append)
      then show ?thesis
        using Loaded load_model_miss_full [OF None True d] by simp
    next
      case False
      then have "length cache < 2" by simp
      then show ?thesis
        using Loaded load_model_miss_room [OF None] assms(1) by simp
    qed
  qed
qed

lemma load_models_insertion_order:
  fixes cache :: "(string, 'm::linorder) pydict"
  assumes "sorted_wrt (<) (map snd cache @ loaded_handles calls)" and "cache_ok cache"
  shows "sorted_wrt (<) (map snd (load_models cache calls))"
  using assms
proof (induction calls arbitrary: cache)
  case Nil
  then show ?case by simp
next
  case (Cons c calls)
  obtain model_name loader where c: "c = (model_name, loader)" by (cases c)
  have "sorted_wrt (<)
          (map snd (snd (load_model cache loader model_name)) @ loaded_handles calls)"
    using load_model_insertion_order Cons.prems c by blast
  moreover have "cache_ok (snd (load_model cache loader model_name))"
    using Cons.prems(2) by (rule load_model_cache_ok)
  ultimately show ?case
    using Cons.IH c by simp
qed

text \<open>
  C4. Over every sequence of \<^verbatim>\<open>load_model\<close> calls from the empty cache the cache holds at
  most 2 entries. An insertion into a full cache removes the first entry of the dict
  and appends the new one; an insertion into a cache with room removes nothing; a hit
  returns the cached handle and leaves the cache, and with it the order of its entries,
  as it was. The first entry is the one inserted earliest: when the loader hands out
  increasing stamps as handles, the entries of the cache are always in increasing
  order of their stamps.
\<close>

theorem model_cache_bounded_fifo:
  fixes calls :: "(string \<times> 'm load_outcome) list"
  shows "length (load_models [] calls) \<le> 2
   \<and> (\<forall>(cache :: (string, 'm) pydict) model_name m.
        cache_ok cache \<and> length cache = 2 \<and> map_of cache model_name = None \<longrightarrow>
        load_model cache (Loaded m) model_name = (Some m, tl cache @ [(model_name, m)]))
   \<and> (\<forall>(cache :: (string, 'm) pydict) model_name m.
        length cache < 2 \<and> map_of cache model_name = None \<longrightarrow>
        load_model cache (Loaded m) model_name = (Some m, cache @ [(model_name, m)]))
   \<and> (\<forall>(cache :: (string, 'm) pydict) model_name m loader.
        map_of cache model_name = Some m \<longrightarrow>
        load_model cache loader model_name = (Some m, cache))
   \<and> (\<forall>stamped :: (string \<times> nat load_outcome) list.
        sorted_wrt (<) (loaded_handles stamped) \<longrightarrow>
        sorted_wrt (<) (map snd (load_models [] stamped)))"
proof (intro conjI allI impI)
  have "cache_ok (load_models [] calls)"
    by (rule load_models_cache_ok) (simp add: cache_ok_def)
  then show "length (load_models [] calls) \<le> 2"
    by (simp add: cache_ok_def)
next
  fix cache :: "(string, 'm) pydict" and model_name m
  assume "cache_ok cache \<and> length cache = 2 \<and> map_of cache model_name = None"
  then show "load_model cache (Loaded m) model_name = (Some m, tl cache @ [(model_name, m)])"
    by (simp add: load_model_miss_full cache_ok_def)
next
  fix cache :: "(string, 'm) pydict" and model_name m
  assume "length cache < 2 \<and> map_of cache model_name = None"
  then show "load_model cache (Loaded m) model_name = (Some m, cache @ [(model_name, m)])"
    by (simp add: load_model_miss_room)
next
  fix cache :: "(string, 'm) pydict" and model_name m loader
  assume "map_of cache model_name = Some m"
  then show "load_model cache loader model_name = (Some m, cache)"
    by (rule load_model_hit)
next
  fix stamped :: "(string \<times> nat load_outcome) list"
  assume "sorted_wrt (<) (loaded_handles stamped)"
  then show "sorted_wrt (<) (map snd (load_models [] stamped))"
    by (intro load_models_insertion_order) (simp_all add: cache_ok_def)
qed

theorem model_cache_bounded_fifo_witness:
  "length (load_models []
      [(''tiny'', Loaded (1::nat)), (''base'', Loaded 2), (''tiny'', Loaded 3),
       (''small'', Loaded 4)]) \<le> 2
   \<and> load_model [(''tiny'', 1::nat), (''base'', 2)] (Loaded 4) ''small''
       = (Some 4, [(''base'', 2), (''small'', 4)])
   \<and> load_model [(''tiny'', 1::nat)] (Loaded 2) ''base''
       = (Some 2, [(''tiny'', 1), (''base'', 2)])
   \<and> load_model [(''tiny'', 1::nat), (''base'', 2)] (Loaded 3) ''tiny''
       = (Some 1, [(''tiny'', 1), (''base'', 2)])
   \<and> sorted_wrt (<) (map snd (load_models []
        [(''tiny'', Loaded (1::nat)), (''base'', Loaded 2), (''tiny'', Loaded 3),
         (''small'', Loaded 4)]))"
  using model_cache_bounded_fifo
    [of "[(''tiny'', Loaded (1::nat)), (''base'', Loaded 2), (''tiny'', Loaded 3),
          (''small'', Loaded 4)]"]
  by (simp add: cache_ok_def)

text \<open>
  C10. When the external loader raises, \<^verbatim>\<open>load_model\<close> leaves the cache exactly as it
  was, and on the miss that makes it call the loader it returns \<^verbatim>\<open>None\<close>.
\<close>

theorem load_model_loader_raises:
  "snd (load_model cache (LoadRaised e) model_name) = cache
   \<and> (map_of cache model_name = None \<longrightarrow>
        load_model cache (LoadRaised e) model_name = (None, cache))"
  by (simp add: load_model_def dict_contains_def)

theorem load_model_loader_raises_witness:
  "snd (load_model [(''tiny'', 1::nat), (''base'', 2)] (LoadRaised ''out of memory'') ''small'')
     = [(''tiny'', 1), (''base'', 2)]
   \<and> load_model [(''tiny'', 1::nat), (''base'', 2)] (LoadRaised ''out of memory'') ''small''
     = (None, [(''tiny'', 1), (''base'', 2)])"
  using load_model_loader_raises
    [of "[(''tiny'', 1::nat), (''base'', 2)]" "''out of memory''" "''small''"]
  by simp

section \<open>Properties of the download orchestrator\<close>

lemma model_file_example: "model_file example_world ''tiny'' = Some ''/home/user/.cache/whisper/tiny.pt''"
  by (simp add: model_file_def example_world_def basename_def path_join_def)

lemma model_file_downloaded: "model_file downloaded_world ''tiny'' = Some ''/home/user/.cache/whisper/tiny.pt''"
  by (simp add: model_file_def example_world_def downloaded_world_def basename_def path_join_def)

lemma files_example: "files example_world ''/home/user/.cache/whisper/tiny.pt'' = None"
  by (simp add: example_world_def)

lemma expected_example: "get_expected_model_size example_world ''tiny'' = 40894464"
  by (simp add: get_expected_model_size_def approximate_sizes_def example_world_def)

lemma download_returning_example:
  "snd (download_model example_world returning_run ''tiny'')
     = [StartMonitor ''tiny'' 40894464, CallLoadModel ''tiny'', SetStopEvent, JoinMonitor 1,
        PrintProgress (Complete ''tiny'' 1000 40894464 100)]"
  by (simp add: download_model_def model_file_example files_example expected_example
      returning_run_def)

lemma download_model_prints_complete:
  "a \<in> set (snd (download_model w run model_name)) \<Longrightarrow> a = PrintProgress ev \<Longrightarrow>
   percentage ev = 100 \<and> is_complete a"
  by (auto simp: download_model_def Let_def
      split: option.splits download_call.splits if_splits)

text \<open>
  C8. When the model file is on disk at the start, \<^verbatim>\<open>download_model\<close> returns the success
  result with the size of that file and does nothing else: no monitor is started, the
  external download is not called and nothing is printed on standard error.
\<close>

theorem download_model_already_downloaded:
  assumes "model_file w model_name = Some path" and "files w path = Some file_size"
  shows "download_model w run model_name
           = (downloaded_result model_name path (int file_size), [])
         \<and> map_of (fst (download_model w run model_name)) ''success'' = Some (JBool True)
         \<and> map_of (fst (download_model w run model_name)) ''size_bytes''
             = Some (JInt (int file_size))"
  using assms by (simp add: download_model_def downloaded_result_def)

theorem download_model_already_downloaded_witness:
  "download_model downloaded_world raising_run ''tiny''
     = (downloaded_result ''tiny'' ''/home/user/.cache/whisper/tiny.pt'' 1000, [])
   \<and> map_of (fst (download_model downloaded_world raising_run ''tiny'')) ''success'' = Some (JBool True)
   \<and> map_of (fst (download_model downloaded_world raising_run ''tiny'')) ''size_bytes''
             = Some (JInt 1000)"
proof -
  have f: "files downloaded_world ''/home/user/.cache/whisper/tiny.pt'' = Some 1000"
    by (simp add: downloaded_world_def)
  show ?thesis
    using download_model_already_downloaded [OF model_file_downloaded f, of raising_run]
    by (simp add: downloaded_result_def)
qed

lemma iteration_emits_progress:
  "emitted (monitor_iteration n e st c t) = Some ev \<Longrightarrow> \<not> is_complete_event ev"
  by (auto simp: monitor_iteration_def Let_def split: if_splits)

lemma loop_event_source:
  "(t, ev) \<in> set (fst (monitor_loop n e st ps)) \<Longrightarrow>
   \<exists>p \<in> set ps. \<exists>st' c. \<not> stop_is_set p \<and> sample p = Some c \<and> t = clock p
     \<and> emitted (monitor_iteration n e st' c (clock p)) = Some ev"
proof (induction ps arbitrary: st)
  case Nil
  then show ?case by simp
next
  case (Cons p ps)
  show ?case
  proof (cases "stop_is_set p")
    case True
    then show ?thesis using Cons.prems by simp
  next
    case False
    note run = this
    show ?thesis
    proof (cases "sample p")
      case None
      then show ?thesis using Cons run by auto
    next
      case (Some c)
      let ?r = "monitor_iteration n e st c (clock p)"
      have here: "(t, ev) \<in> set (stamp (clock p) (emitted ?r)) \<Longrightarrow> ?thesis"
        using Some run by (auto simp: stamp_def split: option.splits)
      show ?thesis
      proof (cases "exit_by ?r")
        case None
        then have "(t, ev) \<in> set (stamp (clock p) (emitted ?r))
                   \<or> (t, ev) \<in> set (fst (monitor_loop n e (next_state ?r) ps))"
          using Cons.prems run Some by (simp add: Let_def)
        then show ?thesis
          using here Cons.IH by auto
      next
        case (Some x)
        then have "(t, ev) \<in> set (stamp (clock p) (emitted ?r))"
          using Cons.prems run \<open>sample p = Some c\<close> by (simp add: Let_def)
        then show ?thesis by (rule here)
      qed
    qed
  qed
qed

lemma clocked_poll_in_time:
  "p \<in> set (clocked (\<lambda>t. E \<le> t) tested_at ticks) \<Longrightarrow> \<not> stop_is_set p \<Longrightarrow>
   \<forall>k \<in> set ticks. tick_lag k \<le> 1000000000 \<Longrightarrow> clock p \<le> E + 1"
proof (induction ticks arbitrary: tested_at)
  case Nil
  then show ?case by simp
next
  case (Cons k ks)
  let ?t = "tested_at + real (tick_lag k) / 1000000000"
  have lag: "real (tick_lag k) / 1000000000 \<le> 1"
    using Cons.prems(3) by simp
  from Cons.prems(1) consider
      "p = \<lparr>stop_is_set = E \<le> tested_at, reading = tick_reading k, clock = ?t\<rparr>"
    | "p \<in> set (clocked (\<lambda>t. E \<le> t) (?t + 1 / 2) ks)"
    by (auto simp: Let_def)
  then show ?case
  proof cases
    case 1
    then show ?thesis using Cons.prems(2) lag by simp
  next
    case 2
    then show ?thesis using Cons.IH Cons.prems(2) Cons.prems(3) by simp
  qed
qed

lemma monitor_events_loop:
  "(t, ev) \<in> set (monitor_events w tr model_name) \<Longrightarrow>
   (t, ev) \<in> set (fst (monitor_loop model_name (get_expected_model_size w model_name)
       (initial_state (started_at tr))
       (clocked (\<lambda>t. ended_at tr \<le> t) (started_at tr) (monitor_ticks tr))))"
  by (auto simp: monitor_events_def monitor_download_progress_def split: option.splits)
     (metis fst_conv)

lemma monitor_events_progress:
  assumes "(t, ev) \<in> set (monitor_events w tr model_name)"
  shows "\<not> is_complete_event ev"
proof -
  obtain n e st' c t' where "emitted (monitor_iteration n e st' c t') = Some ev"
    using loop_event_source [OF monitor_events_loop [OF assms]] by blast
  then show ?thesis by (rule iteration_emits_progress)
qed

lemma monitor_events_in_time:
  assumes "(t, ev) \<in> set (monitor_events w tr model_name)"
    and "\<forall>k \<in> set (monitor_ticks tr). tick_lag k \<le> 1000000000"
  shows "t \<le> ended_at tr + 1"
proof -
  obtain p
    where "p \<in> set (clocked (\<lambda>t. ended_at tr \<le> t) (started_at tr) (monitor_ticks tr))"
      and "\<not> stop_is_set p" and "t = clock p"
    using loop_event_source [OF monitor_events_loop [OF assms(1)]] by blast
  then show ?thesis
    using clocked_poll_in_time assms(2) by blast
qed

lemma all_before:
  "\<forall>x \<in> set xs. P x \<Longrightarrow>
   map f (takeWhile P xs) @ ys @ map f (dropWhile P xs) = map f xs @ ys"
  by (induction xs) auto

lemma no_complete_among_monitor_events:
  "filter is_complete_event (map snd (monitor_events w tr model_name)) = []"
  using monitor_events_progress by (fastforce simp: filter_empty_conv)

lemma models_example:
  "whisper_MODELS example_world ''tiny'' = Some ''https://models.example/whisper/tiny.pt''"
  by (simp add: example_world_def)

lemma prompt_events:
  "monitor_events example_world prompt_thread ''tiny''
     = [(5001 / 5, Progress ''tiny'' 1000 40894464 0 0)]"
proof -
  have r: "py_round (percentage_of 1000 40894464) (Suc 0) = 0"
    by (simp add: py_round_def round_half_even_def percentage_of_def Let_def)
  show ?thesis
    by (simp add: monitor_events_def monitor_download_progress_def expected_example
        prompt_thread_def monitor_iteration_def sample_def initial_state_def stamp_def
        Let_def r models_example)
qed

lemma late_events:
  "monitor_events example_world late_thread ''tiny''
     = [(1001501 / 1000, Progress ''tiny'' 1000 40894464 0 0)]"
proof -
  have r: "py_round (percentage_of 1000 40894464) (Suc 0) = 0"
    by (simp add: py_round_def round_half_even_def percentage_of_def Let_def)
  show ?thesis
    by (simp add: monitor_events_def monitor_download_progress_def expected_example
        late_thread_def monitor_iteration_def sample_def initial_state_def stamp_def
        Let_def r models_example)
qed

lemma thread_ends:
  "ended_at prompt_thread = 2001 / 2" "ended_at late_thread = 2001 / 2"
  by (simp_all add: prompt_thread_def late_thread_def)

lemma download_raising_example:
  "snd (download_model example_world raising_run ''tiny'')
     = [StartMonitor ''tiny'' 40894464, CallLoadModel ''tiny'', SetStopEvent]"
  by (simp add: download_model_def model_file_example files_example expected_example
      raising_run_def)

text \<open>
  C2, as the claim states it, fails twice. When the blocking download call raises,
  \<^verbatim>\<open>download_model\<close> sets the stop event and returns; it neither joins the monitor nor
  prints a \<^verbatim>\<open>complete\<close> event. And when the call returns while an iteration of the
  monitor is held up for longer than the wait of 1 second, the \<^verbatim>\<open>complete\<close> event is
  printed before the \<^verbatim>\<open>progress\<close> event of that iteration.
\<close>

theorem download_complete_missing_or_early:
  "model_file example_world ''tiny'' = Some ''/home/user/.cache/whisper/tiny.pt''
   \<and> files example_world ''/home/user/.cache/whisper/tiny.pt'' = None
   \<and> snd (download_model example_world raising_run ''tiny'')
       = [StartMonitor ''tiny'' 40894464, CallLoadModel ''tiny'', SetStopEvent]
   \<and> download_stderr example_world raising_run prompt_thread ''tiny''
       = [Progress ''tiny'' 1000 40894464 0 0]
   \<and> download_stderr example_world returning_run late_thread ''tiny''
       = [Complete ''tiny'' 1000 40894464 100, Progress ''tiny'' 1000 40894464 0 0]"
  by (simp add: model_file_example files_example download_raising_example
      download_returning_example download_stderr_def prompt_events late_events thread_ends)

text \<open>
  C2, amended. For an invocation that does not take the short-circuit: when the blocking
  call returns, \<^verbatim>\<open>download_model\<close> sets the stop event, joins the monitor for at most 1
  second if it is still alive, and then prints exactly one \<^verbatim>\<open>complete\<close> event with
  percentage 100; the event comes after every \<^verbatim>\<open>progress\<close> event whose iteration read
  the clock by the end of that wait, so it is the last event of the invocation, after
  all \<^verbatim>\<open>progress\<close> events, whenever every printing iteration of the monitor has read
  the clock by then: in particular whenever the join is made and no iteration of the
  monitor takes more than 1 second to reach its clock reading. When the call raises or is
  interrupted, \<^verbatim>\<open>download_model\<close> sets the stop event and returns a failure result,
  without a join and without a \<^verbatim>\<open>complete\<close> event.
\<close>

theorem download_model_orchestration:
  assumes "model_file w model_name = Some path" and "files w path = None"
  shows "(blocking_call run = DownloadReturns \<longrightarrow>
           snd (download_model w run model_name)
             = [StartMonitor model_name (get_expected_model_size w model_name),
                CallLoadModel model_name, SetStopEvent]
               @ (if monitor_alive run then [JoinMonitor 1] else [])
               @ [PrintProgress (Complete model_name
                      (case files_after run path of Some n \<Rightarrow> int n | None \<Rightarrow> 0)
                      (get_expected_model_size w model_name) 100)]
           \<and> download_stderr w run tr model_name
               = map snd (takeWhile
                            (\<lambda>(t, e). t \<le> ended_at tr + (if monitor_alive run then 1 else 0))
                            (monitor_events w tr model_name))
                 @ [Complete model_name
                      (case files_after run path of Some n \<Rightarrow> int n | None \<Rightarrow> 0)
                      (get_expected_model_size w model_name) 100]
                 @ map snd (dropWhile
                              (\<lambda>(t, e). t \<le> ended_at tr + (if monitor_alive run then 1 else 0))
                              (monitor_events w tr model_name))
           \<and> length (filter is_complete_event (download_stderr w run tr model_name)) = 1
           \<and> ((\<forall>(t, e) \<in> set (monitor_events w tr model_name).
                   t \<le> ended_at tr + (if monitor_alive run then 1 else 0)) \<longrightarrow>
                download_stderr w run tr model_name
                  = map snd (monitor_events w tr model_name)
                    @ [Complete model_name
                         (case files_after run path of Some n \<Rightarrow> int n | None \<Rightarrow> 0)
                         (get_expected_model_size w model_name) 100])
           \<and> (monitor_alive run \<and> (\<forall>k \<in> set (monitor_ticks tr). tick_lag k \<le> 1000000000) \<longrightarrow>
                download_stderr w run tr model_name
                  = map snd (monitor_events w tr model_name)
                    @ [Complete model_name
                         (case files_after run path of Some n \<Rightarrow> int n | None \<Rightarrow> 0)
                         (get_expected_model_size w model_name) 100])
           \<and> truthy (map_of (fst (download_model w run model_name)) ''success''))
       \<and> (blocking_call run \<noteq> DownloadReturns \<longrightarrow>
           snd (download_model w run model_name)
             = [StartMonitor model_name (get_expected_model_size w model_name),
                CallLoadModel model_name, SetStopEvent]
           \<and> download_stderr w run tr model_name = map snd (monitor_events w tr model_name)
           \<and> filter is_complete_event (download_stderr w run tr model_name) = []
           \<and> \<not> truthy (map_of (fst (download_model w run model_name)) ''success''))"
proof (cases "blocking_call run = DownloadReturns")
  case True
  let ?c = "Complete model_name (case files_after run path of Some n \<Rightarrow> int n | None \<Rightarrow> 0)
              (get_expected_model_size w model_name) 100"
  let ?P = "\<lambda>(t :: real, e :: event). t \<le> ended_at tr + (if monitor_alive run then 1 else 0)"
  let ?evs = "monitor_events w tr model_name"
  have acts: "snd (download_model w run model_name)
             = [StartMonitor model_name (get_expected_model_size w model_name),
                CallLoadModel model_name, SetStopEvent]
               @ (if monitor_alive run then [JoinMonitor 1] else [])
               @ [PrintProgress ?c]"
    using assms True by (simp add: download_model_def Let_def)
  have err: "download_stderr w run tr model_name
               = map snd (takeWhile ?P ?evs) @ [?c] @ map snd (dropWhile ?P ?evs)"
    by (simp add: download_stderr_def acts Let_def)
  have "filter is_complete_event (map snd (takeWhile ?P ?evs) @ map snd (dropWhile ?P ?evs)) = []"
    using no_complete_among_monitor_events [of w tr model_name]
    by (simp flip: map_append)
  then have one: "length (filter is_complete_event (download_stderr w run tr model_name)) = 1"
    by (simp add: err)
  have early: "download_stderr w run tr model_name = map snd ?evs @ [?c]"
    if "\<forall>x \<in> set ?evs. ?P x"
  proof -
    have "map snd (takeWhile ?P ?evs) @ [?c] @ map snd (dropWhile ?P ?evs)
            = map snd ?evs @ [?c]"
      using that by (rule all_before)
    then show ?thesis
      by (simp only: err)
  qed
  have last: "download_stderr w run tr model_name = map snd ?evs @ [?c]"
    if "monitor_alive run" and "\<forall>k \<in> set (monitor_ticks tr). tick_lag k \<le> 1000000000"
  proof -
    let ?Q = "\<lambda>(t :: real, e :: event). t \<le> ended_at tr + 1"
    have all: "\<forall>x \<in> set ?evs. ?Q x"
      using monitor_events_in_time [OF _ that(2)] by auto
    have "map snd (takeWhile ?Q ?evs) @ [?c] @ map snd (dropWhile ?Q ?evs)
            = map snd ?evs @ [?c]"
      using all by (rule all_before)
    then show ?thesis
      using that(1) by (simp add: err)
  qed
  have ok: "truthy (map_of (fst (download_model w run model_name)) ''success'')"
    using assms True by (simp add: download_model_def Let_def downloaded_result_def)
  show ?thesis
    using True acts err one early last ok by simp
next
  case False
  have acts: "snd (download_model w run model_name)
             = [StartMonitor model_name (get_expected_model_size w model_name),
                CallLoadModel model_name, SetStopEvent]"
    using assms False
    by (cases "blocking_call run") (simp_all add: download_model_def Let_def)
  have err: "download_stderr w run tr model_name = map snd (monitor_events w tr model_name)"
    by (simp add: download_stderr_def acts Let_def flip: map_append)
  have bad: "\<not> truthy (map_of (fst (download_model w run model_name)) ''success'')"
    using assms False
    by (cases "blocking_call run") (simp_all add: download_model_def Let_def download_failed_def)
  show ?thesis
    using False acts err bad no_complete_among_monitor_events [of w tr model_name] by simp
qed

theorem download_model_orchestration_witness:
  "snd (download_model example_world returning_run ''tiny'')
     = [StartMonitor ''tiny'' 40894464, CallLoadModel ''tiny'', SetStopEvent, JoinMonitor 1,
        PrintProgress (Complete ''tiny'' 1000 40894464 100)]
   \<and> download_stderr example_world returning_run prompt_thread ''tiny''
     = [Progress ''tiny'' 1000 40894464 0 0, Complete ''tiny'' 1000 40894464 100]
   \<and> truthy (map_of (fst (download_model example_world returning_run ''tiny'')) ''success'')
   \<and> snd (download_model example_world raising_run ''tiny'')
     = [StartMonitor ''tiny'' 40894464, CallLoadModel ''tiny'', SetStopEvent]
   \<and> download_stderr example_world raising_run prompt_thread ''tiny''
     = [Progress ''tiny'' 1000 40894464 0 0]
   \<and> \<not> truthy (map_of (fst (download_model example_world raising_run ''tiny'')) ''success'')"
proof -
  have r: "blocking_call returning_run = DownloadReturns" "monitor_alive returning_run"
    "files_after returning_run ''/home/user/.cache/whisper/tiny.pt'' = Some 1000"
    by (simp_all add: returning_run_def)
  have x: "blocking_call raising_run \<noteq> DownloadReturns"
    by (simp add: raising_run_def)
  have l: "\<forall>k \<in> set (monitor_ticks prompt_thread). tick_lag k \<le> 1000000000"
    by (simp add: prompt_thread_def)
  show ?thesis
    using download_model_orchestration
        [OF model_file_example files_example, of returning_run prompt_thread]
      download_model_orchestration
        [OF model_file_example files_example, of raising_run prompt_thread]
      r x l expected_example
    by (simp add: prompt_events thread_ends)
qed

section \<open>Properties of delete and of the exit code\<close>

text \<open>
  C9, as the claim states it, fails: for an absent file \<^verbatim>\<open>delete_model\<close> returns a result
  whose success flag is false, with the error text \<^verbatim>\<open>Model not found\<close>.
\<close>

theorem delete_model_absent_fails:
  "map_of (fst (delete_model example_world ''tiny'')) ''success'' = Some (JBool False)
   \<and> map_of (fst (delete_model example_world ''tiny'')) ''error''
       = Some (JString ''Model not found'')"
proof -
  have "files example_world ''/home/user/.cache/whisper/tiny.pt'' = None"
    by (simp add: example_world_def)
  then show ?thesis
    by (simp add: delete_model_def model_file_example delete_failed_def)
qed

text \<open>
  C9, amended. \<^verbatim>\<open>delete_model\<close> removes the resolved file when it is present and
  \<^verbatim>\<open>os.remove\<close> succeeds, and returns success with \<^verbatim>\<open>freed_bytes\<close> equal to the size of
  the file before removal. When the file is absent it returns the failure result with
  the error \<^verbatim>\<open>Model not found\<close> and changes nothing. An unknown model name and a
  raising \<^verbatim>\<open>os.remove\<close> come back as failure results too, with the world unchanged;
  nothing is raised to the caller.
\<close>

theorem delete_model_outcomes:
  "(model_file w model_name = Some path \<and> files w path = Some file_size
      \<and> remove_raises w path = None \<longrightarrow>
      map_of (fst (delete_model w model_name)) ''freed_bytes'' = Some (JInt (int file_size))
      \<and> map_of (fst (delete_model w model_name)) ''success'' = Some (JBool True)
      \<and> snd (delete_model w model_name) = w\<lparr>files := (files w)(path := None)\<rparr>)
   \<and> (model_file w model_name = Some path \<and> files w path = None \<longrightarrow>
      delete_model w model_name = (delete_failed model_name ''Model not found'', w))
   \<and> (model_file w model_name = Some path \<and> files w path = Some file_size
      \<and> remove_raises w path = Some msg \<longrightarrow>
      delete_model w model_name = (delete_failed model_name msg, w))
   \<and> (model_file w model_name = None \<longrightarrow>
      delete_model w model_name = (delete_failed model_name (key_error_str model_name), w))
   \<and> map_of (delete_failed model_name msg) ''success'' = Some (JBool False)"
  by (simp add: delete_model_def delete_failed_def)

theorem delete_model_outcomes_witness:
  "map_of (fst (delete_model downloaded_world ''tiny'')) ''freed_bytes'' = Some (JInt 1000)
   \<and> files (snd (delete_model downloaded_world ''tiny'')) ''/home/user/.cache/whisper/tiny.pt'' = None
   \<and> delete_model example_world ''tiny'' = (delete_failed ''tiny'' ''Model not found'', example_world)
   \<and> delete_model (downloaded_world\<lparr>remove_raises := [''/home/user/.cache/whisper/tiny.pt'' \<mapsto> ''Permission denied'']\<rparr>) ''tiny''
       = (delete_failed ''tiny'' ''Permission denied'', downloaded_world\<lparr>remove_raises := [''/home/user/.cache/whisper/tiny.pt'' \<mapsto> ''Permission denied'']\<rparr>)
   \<and> delete_model example_world ''huge'' = (delete_failed ''huge'' (key_error_str ''huge''), example_world)"
proof -
  let ?p = "''/home/user/.cache/whisper/tiny.pt''"
  let ?locked = "downloaded_world\<lparr>remove_raises := [?p \<mapsto> ''Permission denied'']\<rparr>"
  have a: "files downloaded_world ?p = Some 1000" "remove_raises downloaded_world ?p = None"
    by (simp_all add: downloaded_world_def example_world_def)
  have b: "files example_world ?p = None" by (simp add: example_world_def)
  have c: "model_file ?locked ''tiny'' = Some ?p" "files ?locked ?p = Some 1000"
    "remove_raises ?locked ?p = Some ''Permission denied''"
    using model_file_downloaded by (simp_all add: model_file_def downloaded_world_def example_world_def)
  have d: "model_file example_world ''huge'' = None"
    by (simp add: model_file_def example_world_def)
  show ?thesis
    using delete_model_outcomes [of downloaded_world "''tiny''" ?p 1000]
      delete_model_outcomes [of example_world "''tiny''" ?p]
      delete_model_outcomes [of ?locked "''tiny''" ?p 1000 "''Permission denied''"]
      delete_model_outcomes [of example_world "''huge''"]
      model_file_downloaded model_file_example a b c d
    by simp
qed

lemma parse_transcribe_command:
  "parse_args (transcribe_command ''json'') = Some (transcribe_args Json)"
  "parse_args (transcribe_command ''text'') = Some (transcribe_args Text)"
  by (simp_all add: parse_args_def transcribe_command_def transcribe_args_def)

lemma parse_check_huge: "parse_args check_huge_command = None"
  by (simp add: parse_args_def check_huge_command_def)

lemma dispatch_failing_json:
  "dispatch (transcribe_args Json) failing_process
     = json_exit [(''error'', JString ''Failed to load Whisper model''),
                  (''success'', JBool False)] [] 0"
  by (simp add: dispatch_def transcribe_args_def failing_process_def transcribe_audio_def
      load_model_def dict_contains_def)

lemma dispatch_failing_text:
  "dispatch (transcribe_args Text) failing_process
     = \<lparr>stdout = [], stderr = [TextLine ''Error: Failed to load Whisper model''], exit_code = 1,
        operation_result = Some [(''error'', JString ''Failed to load Whisper model''),
                                 (''success'', JBool False)]\<rparr>"
  by (simp add: dispatch_def transcribe_args_def failing_process_def transcribe_audio_def
      load_model_def dict_contains_def str_of_def)

lemma dispatch_exit_code:
  "((exit_code (dispatch a env) \<noteq> 0)
      = (mode a = Transcribe \<and> \<not> succeeded (dispatch a env)
         \<and> (audio_missing a env \<or> output_format a = Text)))
   \<and> (mode a \<noteq> Transcribe \<longrightarrow> exit_code (dispatch a env) = 0)
   \<and> (mode a = Transcribe \<and> \<not> audio_missing a env \<and> output_format a = Json \<longrightarrow>
        exit_code (dispatch a env) = 0)"
  by (cases "mode a"; cases "audio_file a"; cases "output_format a")
     (auto simp: dispatch_def json_exit_def audio_missing_def succeeded_def Let_def)

text \<open>
  C7, as the claim states it, fails twice. In mode \<^verbatim>\<open>transcribe\<close> with the output format
  \<^verbatim>\<open>json\<close>, a transcription whose result has the success flag false ends with exit
  code 0. And an invocation in mode \<^verbatim>\<open>check\<close> with a model that is not among the
  choices of \<^verbatim>\<open>--model\<close> ends with exit code 2.
\<close>

theorem main_json_failure_exits_zero:
  "parse_args (transcribe_command ''json'') = Some (transcribe_args Json)
   \<and> mode (transcribe_args Json) = Transcribe
   \<and> operation_result (main (transcribe_command ''json'') failing_process)
       = Some [(''error'', JString ''Failed to load Whisper model''), (''success'', JBool False)]
   \<and> exit_code (main (transcribe_command ''json'') failing_process) = 0
   \<and> given_mode check_huge_command = Some ''check''
   \<and> exit_code (main check_huge_command failing_process) = 2"
  by (simp add: main_def parse_transcribe_command parse_check_huge dispatch_failing_json
      json_exit_def)
     (simp add: transcribe_args_def check_huge_command_def)

text \<open>
  C7, amended. For a command line that \<^verbatim>\<open>parse_args\<close> accepts, the exit code is
  non-zero exactly when the mode is \<^verbatim>\<open>transcribe\<close>, the result's success flag is false,
  and either the audio file argument is missing or names no existing file, or the output
  format is \<^verbatim>\<open>text\<close>; a transcription that gets past the audio file checks under the
  format \<^verbatim>\<open>json\<close> exits 0 whatever its success flag, and every other mode exits 0. A
  command line that \<^verbatim>\<open>parse_args\<close> refuses ends with exit code 2 and no result.
\<close>

theorem main_exit_code:
  "(parse_args cl = Some a \<longrightarrow>
      ((exit_code (main cl env) \<noteq> 0)
         = (mode a = Transcribe \<and> \<not> succeeded (main cl env)
            \<and> (audio_missing a env \<or> output_format a = Text)))
      \<and> (mode a \<noteq> Transcribe \<longrightarrow> exit_code (main cl env) = 0)
      \<and> (mode a = Transcribe \<and> \<not> audio_missing a env \<and> output_format a = Json \<longrightarrow>
           exit_code (main cl env) = 0))
   \<and> (parse_args cl = None \<longrightarrow>
        exit_code (main cl env) = 2 \<and> operation_result (main cl env) = None
        \<and> stdout (main cl env) = [])"
  using dispatch_exit_code [of a env] by (simp add: main_def)

theorem main_exit_code_witness:
  "exit_code (main (transcribe_command ''text'') failing_process) = 1
   \<and> \<not> succeeded (main (transcribe_command ''text'') failing_process)
   \<and> exit_code (main (transcribe_command ''json'') failing_process) = 0
   \<and> \<not> succeeded (main (transcribe_command ''json'') failing_process)
   \<and> exit_code (main check_huge_command failing_process) = 2
   \<and> operation_result (main check_huge_command failing_process) = None"
proof -
  have m: "\<not> audio_missing (transcribe_args fmt) failing_process" for fmt
    by (simp add: audio_missing_def transcribe_args_def failing_process_def)
  have f: "output_format (transcribe_args fmt) = fmt" "mode (transcribe_args fmt) = Transcribe"
    for fmt
    by (simp_all add: transcribe_args_def)
  have t: "exit_code (main (transcribe_command ''text'') failing_process) = 1"
    by (simp add: main_def parse_transcribe_command dispatch_failing_text)
  have j: "\<not> succeeded (main (transcribe_command ''json'') failing_process)"
    by (simp add: main_def parse_transcribe_command dispatch_failing_json json_exit_def
        succeeded_def)
  show ?thesis
    using main_exit_code [of "transcribe_command ''text''" "transcribe_args Text" failing_process]
      main_exit_code [of "transcribe_command ''json''" "transcribe_args Json" failing_process]
      main_exit_code [of check_huge_command _ failing_process]
      parse_transcribe_command parse_check_huge m f t j
    by simp
qed

section \<open>Properties of the progress monitor\<close>

lemma round_half_even_of_int: "round_half_even (of_int k) = k"
  by (simp add: round_half_even_def)

lemma round_half_even_bounds:
  "\<lfloor>x\<rfloor> \<le> round_half_even x \<and> round_half_even x \<le> \<lfloor>x\<rfloor> + 1"
  by (simp add: round_half_even_def Let_def)

lemma round_half_even_mono:
  assumes "x \<le> y"
  shows "round_half_even x \<le> round_half_even y"
proof (cases "\<lfloor>x\<rfloor> = \<lfloor>y\<rfloor>")
  case True
  then have "x - of_int \<lfloor>x\<rfloor> \<le> y - of_int \<lfloor>y\<rfloor>"
    using assms by simp
  then show ?thesis
    using True by (auto simp: round_half_even_def Let_def)
next
  case False
  then have "\<lfloor>x\<rfloor> + 1 \<le> \<lfloor>y\<rfloor>"
    using floor_mono [OF assms] by linarith
  then show ?thesis
    using round_half_even_bounds [of x] round_half_even_bounds [of y] by linarith
qed

lemma py_round_mono: "x \<le> y \<Longrightarrow> py_round x n \<le> py_round y n"
  by (simp add: py_round_def round_half_even_mono divide_right_mono)

lemma py_round_range:
  assumes "0 \<le> x" and "x \<le> 100"
  shows "0 \<le> py_round x 1 \<and> py_round x 1 \<le> 100"
proof -
  have "py_round 0 1 = 0"
    using round_half_even_of_int [of 0] by (simp add: py_round_def)
  moreover have "py_round 100 1 = 100"
    using round_half_even_of_int [of 1000] by (simp add: py_round_def)
  ultimately show ?thesis
    using py_round_mono [OF assms(1), of 1] py_round_mono [OF assms(2), of 1] by simp
qed

lemma round_25: "py_round 25 (Suc 0) = 25" "py_round 50 (Suc 0) = 50" "py_round 16 2 = 16"
  using round_half_even_of_int [of 250] round_half_even_of_int [of 500]
    round_half_even_of_int [of 1600]
  by (simp_all add: py_round_def)

lemma percentage_of_range:
  "0 \<le> current_size \<Longrightarrow>
   0 \<le> percentage_of current_size expected_size \<and> percentage_of current_size expected_size \<le> 100"
  by (simp add: percentage_of_def)

lemma percentage_of_mono:
  "c \<le> c' \<Longrightarrow> percentage_of c expected_size \<le> percentage_of c' expected_size"
proof (cases "expected_size > 0")
  case True
  assume "c \<le> c'"
  then have "real_of_int c / real_of_int expected_size * 100
             \<le> real_of_int c' / real_of_int expected_size * 100"
    using True by (simp add: divide_right_mono)
  then show ?thesis
    using True by (simp add: percentage_of_def min.coboundedI1)
next
  case False
  then show ?thesis by (simp add: percentage_of_def)
qed

lemma sample_nonneg: "sample p = Some c \<Longrightarrow> 0 \<le> c"
  by (auto simp: sample_def split: file_reading.splits)

lemma iteration_emitted:
  "emitted (monitor_iteration n e st c t) = Some ev \<Longrightarrow>
   percentage ev = py_round (percentage_of c e) 1"
  by (auto simp: monitor_iteration_def Let_def split: if_splits)

lemma iteration_exit_cases:
  "exit_by (monitor_iteration n e st c t) = Some x \<Longrightarrow> x = NearComplete \<or> x = Stalled"
  by (auto simp: monitor_iteration_def Let_def split: if_splits)

lemma iteration_stalled_gap:
  "exit_by (monitor_iteration n e st c t) = Some Stalled \<Longrightarrow> 10 < t - last_update_time st"
  by (simp add: monitor_iteration_def Let_def split: if_splits)

lemma iteration_continue_time:
  "exit_by (monitor_iteration n e st c t) = None \<Longrightarrow>
   last_update_time (next_state (monitor_iteration n e st c t)) = t"
  by (simp add: monitor_iteration_def Let_def split: if_splits)

lemma iteration_sends:
  "last_progress_update st \<le> 100 \<Longrightarrow> 201 / 2 < t \<Longrightarrow>
   emitted (monitor_iteration n e st c t) \<noteq> None"
  by (simp add: monitor_iteration_def Let_def)

lemma iteration_last_progress:
  "last_progress_update st \<le> 100 \<Longrightarrow>
   last_progress_update (next_state (monitor_iteration n e st c t)) \<le> 100"
  by (simp add: monitor_iteration_def Let_def percentage_of_def)

lemma loop_events:
  "(t, ev) \<in> set (fst (monitor_loop n e st ps)) \<Longrightarrow>
   \<exists>p \<in> set ps. t = clock p
     \<and> (\<exists>c. sample p = Some c \<and> percentage ev = py_round (percentage_of c e) 1)"
proof (induction ps arbitrary: st)
  case Nil
  then show ?case by simp
next
  case (Cons p ps)
  show ?case
  proof (cases "stop_is_set p")
    case True
    then show ?thesis using Cons.prems by simp
  next
    case False
    note run = this
    show ?thesis
    proof (cases "sample p")
      case None
      then show ?thesis using Cons run by auto
    next
      case (Some c)
      let ?r = "monitor_iteration n e st c (clock p)"
      have here: "(t, ev) \<in> set (stamp (clock p) (emitted ?r)) \<Longrightarrow> ?thesis"
        using Some iteration_emitted [of n e st c "clock p" ev]
        by (auto simp: stamp_def split: option.splits)
      show ?thesis
      proof (cases "exit_by ?r")
        case None
        then have "(t, ev) \<in> set (stamp (clock p) (emitted ?r))
                   \<or> (t, ev) \<in> set (fst (monitor_loop n e (next_state ?r) ps))"
          using Cons.prems run Some by (simp add: Let_def)
        then show ?thesis
          using here Cons.IH by auto
      next
        case (Some x)
        then have "(t, ev) \<in> set (stamp (clock p) (emitted ?r))"
          using Cons.prems run \<open>sample p = Some c\<close> by (simp add: Let_def)
        then show ?thesis by (rule here)
      qed
    qed
  qed
qed

lemma sorted_observed_tail:
  "sorted (observed_sizes (p # ps)) \<Longrightarrow> sorted (observed_sizes ps)"
  by (auto split: option.splits)

lemma sorted_observed_head:
  "sorted (observed_sizes (p # ps)) \<Longrightarrow> sample p = Some c \<Longrightarrow>
   q \<in> set ps \<Longrightarrow> sample q = Some c' \<Longrightarrow> c \<le> c'"
proof -
  assume a: "sorted (observed_sizes (p # ps))" "sample p = Some c"
    "q \<in> set ps" "sample q = Some c'"
  have "c' \<in> set (observed_sizes ps)"
    using a(3) a(4) by (induction ps) (auto split: option.splits)
  then show ?thesis using a(1) a(2) by auto
qed

lemma loop_percentages_sorted:
  "sorted (observed_sizes ps) \<Longrightarrow>
   sorted (map (\<lambda>x. percentage (snd x)) (fst (monitor_loop n e st ps)))"
proof (induction ps arbitrary: st)
  case Nil
  then show ?case by simp
next
  case (Cons p ps)
  note tail = sorted_observed_tail [OF Cons.prems]
  show ?case
  proof (cases "stop_is_set p")
    case True
    then show ?thesis by simp
  next
    case False
    note run = this
    show ?thesis
    proof (cases "sample p")
      case None
      then show ?thesis using Cons.IH [OF tail] run by simp
    next
      case (Some c)
      let ?r = "monitor_iteration n e st c (clock p)"
      let ?rest = "fst (monitor_loop n e (next_state ?r) ps)"
      have later: "py_round (percentage_of c e) 1 \<le> percentage ev'"
        if mem: "(t', ev') \<in> set ?rest" for t' ev'
      proof -
        obtain q c' where q: "q \<in> set ps" "sample q = Some c'"
          "percentage ev' = py_round (percentage_of c' e) 1"
          using loop_events [OF mem] by blast
        have "c \<le> c'"
          using sorted_observed_head [OF Cons.prems Some q(1) q(2)] .
        then show ?thesis
          using q(3) by (simp add: py_round_mono percentage_of_mono)
      qed
      have one: "sorted (map (\<lambda>x. percentage (snd x)) (stamp (clock p) (emitted ?r) @ ?rest))"
      proof (cases "emitted ?r")
        case None
        then show ?thesis using Cons.IH [OF tail] by (simp add: stamp_def)
      next
        case (Some ev)
        have "percentage ev = py_round (percentage_of c e) 1"
          using Some by (rule iteration_emitted)
        then show ?thesis
          using Some Cons.IH [OF tail, of "next_state ?r"] later
          by (auto simp: stamp_def)
      qed
      show ?thesis
      proof (cases "exit_by ?r")
        case None
        then show ?thesis using one run Some by (simp add: Let_def)
      next
        case (Some x)
        then show ?thesis
          using run \<open>sample p = Some c\<close>
          by (cases "emitted ?r") (simp_all add: Let_def stamp_def)
      qed
    qed
  qed
qed

lemma growing_run:
  "monitor_loop ''tiny'' 4194304 (initial_state 1000) growing_polls
     = ([(2001 / 2, Progress ''tiny'' 1048576 4194304 25 0),
         (1001, Progress ''tiny'' 2097152 4194304 50 16),
         (2003 / 2, Progress ''tiny'' 2097152 4194304 50 0)], StillPolling)"
  by (simp add: growing_polls_def monitor_iteration_def sample_def initial_state_def
      percentage_of_def stamp_def push_sample_def throughput_mbps_def round_25 Let_def)

text \<open>
  C5. The percentage of an iteration is \<open>min (current / expected * 100) 100\<close> when the
  expected size is positive and 0 otherwise, and its division never raises. Every event the loop prints carries a
  percentage between 0 and 100, and when the file sizes the loop reads never decrease,
  the percentages of the printed events never decrease. The one event that
  \<^verbatim>\<open>download_model\<close> prints itself carries 100.
\<close>

theorem percentage_clamped_monotone:
  "percentage_of current_size expected_size
     = (if expected_size > 0
        then min (real_of_int current_size / real_of_int expected_size * 100) 100 else 0)
   \<and> percentage_checked current_size expected_size
       = Inr (percentage_of current_size expected_size)
   \<and> (\<forall>(t, ev) \<in> set (fst (monitor_loop model_name expected_size st polls)).
         0 \<le> percentage ev \<and> percentage ev \<le> 100)
   \<and> (sorted (observed_sizes polls) \<longrightarrow>
        sorted (map (\<lambda>x. percentage (snd x))
                  (fst (monitor_loop model_name expected_size st polls))))
   \<and> (\<forall>a \<in> set (snd (download_model w run model_name)).
         \<forall>ev. a = PrintProgress ev \<longrightarrow> percentage ev = 100)"
proof (intro conjI ballI impI allI)
  show "percentage_of current_size expected_size
     = (if expected_size > 0
        then min (real_of_int current_size / real_of_int expected_size * 100) 100 else 0)"
    by (simp add: percentage_of_def)
next
  show "percentage_checked current_size expected_size
       = Inr (percentage_of current_size expected_size)"
    by (simp add: percentage_checked_def py_truediv_def percentage_of_def)
next
  fix x assume x: "x \<in> set (fst (monitor_loop model_name expected_size st polls))"
  obtain t ev where tev: "x = (t, ev)" by (cases x)
  obtain p c where "sample p = Some c"
    "percentage ev = py_round (percentage_of c expected_size) 1"
    using loop_events x tev by blast
  then have "0 \<le> percentage ev \<and> percentage ev \<le> 100"
    using py_round_range percentage_of_range sample_nonneg by metis
  then show "case x of (t, ev) \<Rightarrow> 0 \<le> percentage ev \<and> percentage ev \<le> 100"
    using tev by simp
next
  assume "sorted (observed_sizes polls)"
  then show "sorted (map (\<lambda>x. percentage (snd x))
                  (fst (monitor_loop model_name expected_size st polls)))"
    by (rule loop_percentages_sorted)
next
  fix a ev
  assume "a \<in> set (snd (download_model w run model_name))" and "a = PrintProgress ev"
  then show "percentage ev = 100"
    using download_model_prints_complete by blast
qed

theorem percentage_clamped_monotone_witness:
  "sorted (observed_sizes growing_polls)
   \<and> map (\<lambda>x. percentage (snd x))
        (fst (monitor_loop ''tiny'' 4194304 (initial_state 1000) growing_polls)) = [25, 50, 50]
   \<and> sorted (map (\<lambda>x. percentage (snd x))
        (fst (monitor_loop ''tiny'' 4194304 (initial_state 1000) growing_polls)))
   \<and> percentage_of 1048576 4194304 = 25 \<and> percentage_of 1048576 0 = 0
   \<and> percentage_checked 1048576 0 = Inr 0
   \<and> map (\<lambda>a. case a of PrintProgress ev \<Rightarrow> Some (percentage ev) | _ \<Rightarrow> None)
        (snd (download_model example_world returning_run ''tiny''))
       = [None, None, None, None, Some 100]"
proof -
  have s: "sorted (observed_sizes growing_polls)"
    by (simp add: growing_polls_def sample_def)
  show ?thesis
    using percentage_clamped_monotone
      [of 1048576 4194304 "''tiny''" "initial_state 1000" growing_polls example_world
        returning_run]
      percentage_clamped_monotone [of 1048576 0 "''tiny''" "initial_state 1000" growing_polls] s
    by (simp add: growing_run download_returning_example)
qed

lemma sleep_spaced_later:
  "sleep_spaced (p # ps) \<Longrightarrow> q \<in> set ps \<Longrightarrow> clock p + 1 / 2 \<le> clock q"
proof (induction ps arbitrary: p)
  case Nil
  then show ?case by simp
next
  case (Cons r ps)
  show ?case
  proof (cases "q = r")
    case True
    then show ?thesis using Cons.prems(1) by simp
  next
    case False
    then have "q \<in> set ps" using Cons.prems(2) by simp
    moreover have "sleep_spaced (r # ps)" using Cons.prems(1) by simp
    ultimately have "clock r + 1 / 2 \<le> clock q" by (rule Cons.IH [rotated])
    moreover have "clock p + 1 / 2 \<le> clock r" using Cons.prems(1) by simp
    ultimately show ?thesis by simp
  qed
qed

lemma sleep_spaced_tail: "sleep_spaced (p # ps) \<Longrightarrow> sleep_spaced ps"
  by (cases ps) simp_all

lemma consecutive_Cons:
  "consecutive (x # xs) = (case xs of [] \<Rightarrow> [] | y # ys \<Rightarrow> (x, y) # consecutive xs)"
  by (cases xs) simp_all

lemma loop_events_spaced:
  "sleep_spaced ps \<Longrightarrow>
   \<forall>((t1, e1), (t2, e2)) \<in> set (consecutive (fst (monitor_loop n e st ps))). t1 + 1 / 2 \<le> t2"
proof (induction ps arbitrary: st)
  case Nil
  then show ?case by simp
next
  case (Cons p ps)
  note tail = sleep_spaced_tail [OF Cons.prems]
  show ?case
  proof (cases "stop_is_set p")
    case True
    then show ?thesis by simp
  next
    case False
    note run = this
    show ?thesis
    proof (cases "sample p")
      case None
      then show ?thesis using Cons.IH [OF tail] run by simp
    next
      case (Some c)
      let ?r = "monitor_iteration n e st c (clock p)"
      let ?rest = "fst (monitor_loop n e (next_state ?r) ps)"
      have later: "clock p + 1 / 2 \<le> t'" if mem: "(t', ev') \<in> set ?rest" for t' ev'
      proof -
        obtain q where "q \<in> set ps" "t' = clock q"
          using loop_events [OF mem] by blast
        then show ?thesis
          using sleep_spaced_later [OF Cons.prems] by simp
      qed
      have one: "\<forall>((t1, e1), (t2, e2)) \<in> set (consecutive (stamp (clock p) (emitted ?r) @ ?rest)).
                   t1 + 1 / 2 \<le> t2"
      proof (cases "emitted ?r")
        case None
        then show ?thesis using Cons.IH [OF tail] by (simp add: stamp_def)
      next
        case (Some ev)
        show ?thesis
        proof (cases ?rest)
          case Nil
          then show ?thesis using Some by (simp add: stamp_def)
        next
          case (Cons y ys)
          obtain t' ev' where y: "y = (t', ev')" by (cases y)
          have "clock p + 1 / 2 \<le> t'"
            using later [of t' ev'] Cons y by simp
          then show ?thesis
            using Some Cons y Cons.IH [OF tail, of "next_state ?r"]
            by (simp add: stamp_def)
        qed
      qed
      show ?thesis
      proof (cases "exit_by ?r")
        case None
        then show ?thesis using one run Some by (simp add: Let_def)
      next
        case (Some x)
        then show ?thesis
          using run \<open>sample p = Some c\<close>
          by (cases "emitted ?r") (simp_all add: Let_def stamp_def)
      qed
    qed
  qed
qed

lemma clocked_head: "clocked stop_set tested_at ticks = p # ps \<Longrightarrow> tested_at \<le> clock p"
  by (cases ticks) (auto simp: Let_def)

lemma clocked_sleep_spaced: "sleep_spaced (clocked stop_set tested_at ticks)"
proof (induction ticks arbitrary: tested_at)
  case Nil
  then show ?case by simp
next
  case (Cons k ks)
  define c where "c = tested_at + real (tick_lag k) / 1000000000"
  define p where "p = \<lparr>stop_is_set = stop_set tested_at, reading = tick_reading k, clock = c\<rparr>"
  have step: "clocked stop_set tested_at (k # ks) = p # clocked stop_set (c + 1 / 2) ks"
    by (simp add: c_def p_def Let_def)
  have c: "clock p = c" by (simp add: p_def)
  show ?case
  proof (cases "clocked stop_set (c + 1 / 2) ks")
    case Nil
    then show ?thesis by (simp only: step sleep_spaced.simps)
  next
    case (Cons q qs)
    have "c + 1 / 2 \<le> clock q"
      using Cons by (rule clocked_head)
    moreover have "sleep_spaced (q # qs)"
      using Cons.IH [of "c + 1 / 2"] Cons by simp
    ultimately show ?thesis
      by (simp only: step Cons sleep_spaced.simps c)
  qed
qed

lemma growing_ticks_clocked: "clocked (\<lambda>t. False) 1000 growing_ticks = growing_polls"
  by (simp add: growing_ticks_def growing_polls_def Let_def)

text \<open>
  C1. Two \<^verbatim>\<open>progress\<close> events that \<^verbatim>\<open>monitor_download_progress\<close> prints one after the
  other are at least 0.5 seconds apart or differ by more than 1.0 point in their
  percentage. The first alternative always holds: an event is printed by an iteration,
  and \<^verbatim>\<open>time.sleep(0.5)\<close> at line 191 lies between two iterations (\<open>clocked_sleep_spaced\<close>,
  \<open>loop_events_spaced\<close>).
\<close>

theorem progress_events_throttled:
  assumes "monitor_download_progress models model_name expected_size stop_set start_time ticks
             = Some (evs, x)"
  shows "\<forall>((t1, e1), (t2, e2)) \<in> set (consecutive evs).
           1 / 2 \<le> t2 - t1 \<or> 1 < \<bar>percentage e2 - percentage e1\<bar>"
proof (intro ballI)
  fix y
  assume y: "y \<in> set (consecutive evs)"
  obtain t1 e1 t2 e2 where p: "y = ((t1, e1), (t2, e2))"
    by (metis surj_pair)
  have "evs = fst (monitor_loop model_name expected_size (initial_state start_time)
                     (clocked stop_set start_time ticks))"
    using assms by (auto simp: monitor_download_progress_def split: option.splits)
  then have "t1 + 1 / 2 \<le> t2"
    using loop_events_spaced [OF clocked_sleep_spaced] y p by blast
  then show "case y of
      (a, b) \<Rightarrow> (case a of (t1, e1) \<Rightarrow> \<lambda>(t2, e2).
         1 / 2 \<le> t2 - t1 \<or> 1 < \<bar>percentage e2 - percentage e1\<bar>) b"
    using p by simp
qed

theorem progress_events_throttled_witness:
  "monitor_download_progress [''tiny'' \<mapsto> ''https://models.example/whisper/tiny.pt''] ''tiny''
     4194304 (\<lambda>t. False) 1000 growing_ticks
     = Some ([(2001 / 2, Progress ''tiny'' 1048576 4194304 25 0),
              (1001, Progress ''tiny'' 2097152 4194304 50 16),
              (2003 / 2, Progress ''tiny'' 2097152 4194304 50 0)], StillPolling)
   \<and> list_all (\<lambda>((t1, e1), (t2, e2)).
                  1 / 2 \<le> t2 - t1 \<or> 1 < \<bar>percentage e2 - percentage e1\<bar>)
        (consecutive [(2001 / 2 :: real, Progress ''tiny'' 1048576 4194304 25 0),
              (1001, Progress ''tiny'' 2097152 4194304 50 16),
              (2003 / 2, Progress ''tiny'' 2097152 4194304 50 0)])"
proof -
  have r: "monitor_download_progress [''tiny'' \<mapsto> ''https://models.example/whisper/tiny.pt'']
     ''tiny'' 4194304 (\<lambda>t. False) 1000 growing_ticks
     = Some ([(2001 / 2, Progress ''tiny'' 1048576 4194304 25 0),
              (1001, Progress ''tiny'' 2097152 4194304 50 16),
              (2003 / 2, Progress ''tiny'' 2097152 4194304 50 0)], StillPolling)"
    by (simp add: monitor_download_progress_def growing_ticks_clocked growing_run)
  show ?thesis
    using progress_events_throttled [OF r] r by (simp add: list_all_iff)
qed

lemma push_sample_length: "length samples \<le> 10 \<Longrightarrow> length (push_sample samples s) \<le> 10"
  by (simp add: push_sample_def Let_def)

lemma push_sample_last_10:
  "length samples \<le> 10 \<Longrightarrow>
   push_sample samples s = drop (length samples + 1 - 10) (samples @ [s])"
proof (cases "length samples = 10")
  case True
  then have "length samples + 1 - 10 = Suc 0" by simp
  moreover have "samples \<noteq> []" using True by auto
  ultimately show ?thesis
    using True by (simp add: push_sample_def Let_def drop_Suc)
next
  case False
  assume "length samples \<le> 10"
  then have "length samples + 1 - 10 = 0" using False by simp
  then show ?thesis
    using False \<open>length samples \<le> 10\<close> by (simp add: push_sample_def Let_def)
qed

text \<open>
  C6, as the claim states it, fails: on a sample without growth the reported speed is 0,
  not the speed reported before. In the run below the file grows from 1 MiB to 2 MiB and
  then stays; the reported speeds are 0, 16 and 0.
\<close>

theorem speed_drops_on_zero_growth:
  "observed_sizes growing_polls = [1048576, 2097152, 2097152]
   \<and> map (\<lambda>x. speed_mbps (snd x))
        (fst (monitor_loop ''tiny'' 4194304 (initial_state 1000) growing_polls)) = [0, 16, 0]"
  by (simp add: growing_run) (simp add: growing_polls_def sample_def)

text \<open>
  C6, amended. In an iteration where the previous size is positive, time has advanced
  and the file has grown, the throughput since the previous sample is appended to the window, the
  window keeps its last 10 samples (the oldest is dropped first), and the reported speed
  is the mean of the window, rounded to 2 decimals. In every other iteration the window
  is left as it is and the reported speed is 0. The window starts empty.
\<close>

theorem speed_window:
  assumes "r = monitor_iteration model_name expected_size st current_size current_time"
    and "inst = throughput_mbps current_size (last_size st)
                  (current_time - last_update_time st)"
    and "window = push_sample (speed_samples st) inst"
  shows "(last_size st > 0 \<and> current_time - last_update_time st > 0
            \<and> current_size > last_size st \<longrightarrow>
          speed_samples (next_state r) = window
          \<and> (\<forall>ev. emitted r = Some ev \<longrightarrow>
                speed_mbps ev
                  = (if sum_list window / real (length window) > 0
                     then py_round (sum_list window / real (length window)) 2 else 0)))
       \<and> (\<not> (last_size st > 0 \<and> current_time - last_update_time st > 0
               \<and> current_size > last_size st) \<longrightarrow>
          speed_samples (next_state r) = speed_samples st
          \<and> (\<forall>ev. emitted r = Some ev \<longrightarrow> speed_mbps ev = 0))
       \<and> (length (speed_samples st) \<le> 10 \<longrightarrow>
          length (speed_samples (next_state r)) \<le> 10
          \<and> window = drop (length (speed_samples st) + 1 - 10) (speed_samples st @ [inst]))
       \<and> speed_samples (initial_state start_time) = []"
proof -
  let ?g = "last_size st > 0 \<and> current_time - last_update_time st > 0
            \<and> current_size > last_size st"
  have samples: "speed_samples (next_state r) = (if ?g then window else speed_samples st)"
    unfolding assms by (simp add: monitor_iteration_def Let_def)
  have speed: "speed_mbps ev
                 = (if ?g
                    then (if sum_list window / real (length window) > 0
                          then py_round (sum_list window / real (length window)) 2 else 0)
                    else 0)"
    if "emitted r = Some ev" for ev
    using that unfolding assms
    by (auto simp: monitor_iteration_def Let_def split: if_splits)
  have len: "length (speed_samples (next_state r)) \<le> 10"
    if "length (speed_samples st) \<le> 10"
    using samples push_sample_length [OF that, of inst] that assms(3) by (simp split: if_splits)
  have last10: "window = drop (length (speed_samples st) + 1 - 10) (speed_samples st @ [inst])"
    if "length (speed_samples st) \<le> 10"
    using assms(3) push_sample_last_10 [OF that] by simp
  have start: "speed_samples (initial_state start_time) = []"
    by (simp add: initial_state_def)
  show ?thesis
    using samples speed len last10 start by simp
qed

theorem speed_window_witness:
  "speed_samples (next_state (monitor_iteration ''tiny'' 4194304
       \<lparr>last_size = 1048576, last_update_time = 2001 / 2, speed_samples = [],
        last_progress_update = 25\<rparr> 2097152 1001)) = [16]
   \<and> map_option speed_mbps (emitted (monitor_iteration ''tiny'' 4194304
       \<lparr>last_size = 1048576, last_update_time = 2001 / 2, speed_samples = [],
        last_progress_update = 25\<rparr> 2097152 1001)) = Some 16
   \<and> speed_samples (next_state (monitor_iteration ''tiny'' 4194304
       \<lparr>last_size = 2097152, last_update_time = 1001, speed_samples = [16],
        last_progress_update = 50\<rparr> 2097152 (2003 / 2))) = [16]
   \<and> map_option speed_mbps (emitted (monitor_iteration ''tiny'' 4194304
       \<lparr>last_size = 2097152, last_update_time = 1001, speed_samples = [16],
        last_progress_update = 50\<rparr> 2097152 (2003 / 2))) = Some 0"
proof -
  let ?st1 = "\<lparr>last_size = 1048576, last_update_time = 2001 / 2, speed_samples = [],
        last_progress_update = 25\<rparr>"
  let ?st2 = "\<lparr>last_size = 2097152, last_update_time = 1001, speed_samples = [16],
        last_progress_update = 50\<rparr>"
  have e1: "emitted (monitor_iteration ''tiny'' 4194304 ?st1 2097152 1001)
              = Some (Progress ''tiny'' 2097152 4194304 50 16)"
    by (simp add: monitor_iteration_def percentage_of_def push_sample_def throughput_mbps_def
        round_25 Let_def)
  have e2: "emitted (monitor_iteration ''tiny'' 4194304 ?st2 2097152 (2003 / 2))
              = Some (Progress ''tiny'' 2097152 4194304 50 0)"
    by (simp add: monitor_iteration_def percentage_of_def push_sample_def throughput_mbps_def
        round_25 Let_def)
  have w: "push_sample [] (16::real) = [16]"
    by (simp add: push_sample_def)
  have i: "throughput_mbps 2097152 1048576 (1 / 2) = 16"
    by (simp add: throughput_mbps_def)
  show ?thesis
    using speed_window [OF refl refl refl, where model_name = "''tiny''"
        and expected_size = 4194304 and st = ?st1 and current_size = 2097152
        and current_time = 1001 and start_time = 0]
      speed_window [OF refl refl refl, where model_name = "''tiny''"
        and expected_size = 4194304 and st = ?st2 and current_size = 2097152
        and current_time = "2003 / 2" and start_time = 0]
    by (simp add: e1 e2 w i round_25)
qed

text \<open>
  C3 fails on the code. A file that stays at 920 of 1000 expected bytes (more than 0.9
  and less than 0.95 of the expected size) for 11.5 seconds, read every half second,
  does not stop the loop: all 24 iterations print an event and the loop goes on polling.
  Line 186 sets \<^verbatim>\<open>last_update_time\<close> in every iteration, so the 10 seconds of line 181
  are measured from the previous iteration, not from the last growth.
\<close>

theorem stalled_download_keeps_polling:
  "set (observed_sizes stalled_polls) = {920}
   \<and> clock (last stalled_polls) - clock (hd stalled_polls) = 23 / 2
   \<and> real_of_int 920 > real_of_int 1000 * (9 / 10)
   \<and> snd (monitor_loop ''tiny'' 1000 (initial_state 1000) stalled_polls) = StillPolling
   \<and> length (fst (monitor_loop ''tiny'' 1000 (initial_state 1000) stalled_polls)) = 24"
  by (simp add: stalled_polls_def monitor_iteration_def sample_def initial_state_def
      percentage_of_def stamp_def upt_rec Let_def)

text \<open>
  The loop does not take the stalled exit as long as every iteration reads a size and
  follows the previous one by at most 10 seconds.
\<close>

theorem steady_polls_never_stalled:
  "steady (last_update_time st) ps \<Longrightarrow> snd (monitor_loop n e st ps) \<noteq> Stalled"
proof (induction ps arbitrary: st)
  case Nil
  then show ?case by simp
next
  case (Cons p ps)
  show ?case
  proof (cases "stop_is_set p")
    case True
    then show ?thesis by simp
  next
    case False
    note run = this
    obtain c where c: "sample p = Some c"
      using Cons.prems by (cases "reading p") (auto simp: sample_def)
    let ?r = "monitor_iteration n e st c (clock p)"
    show ?thesis
    proof (cases "exit_by ?r")
      case None
      have "steady (last_update_time (next_state ?r)) ps"
        using Cons.prems iteration_continue_time [OF None] by simp
      then have "snd (monitor_loop n e (next_state ?r) ps) \<noteq> Stalled"
        by (rule Cons.IH)
      then show ?thesis using run c None by (simp add: Let_def)
    next
      case (Some x)
      have "x \<noteq> Stalled"
        using Some iteration_stalled_gap [of n e st c "clock p"] Cons.prems by auto
      then show ?thesis using run c Some by (simp add: Let_def)
    qed
  qed
qed

theorem steady_polls_never_stalled_witness:
  "steady (last_update_time (initial_state 1000)) stalled_polls
   \<and> snd (monitor_loop ''tiny'' 1000 (initial_state 1000) stalled_polls) \<noteq> Stalled"
proof -
  have s: "steady (last_update_time (initial_state 1000)) stalled_polls"
    by (simp add: stalled_polls_def initial_state_def upt_rec)
  show ?thesis
    using steady_polls_never_stalled [OF s, of "''tiny''" 1000] s by simp
qed

text \<open>
  The guard of line 163 compares the clock with the last printed percentage, which is
  at most 100: once the clock reads more than 100.5 (seconds since the epoch), every
  iteration that reads a file size prints an event.
\<close>

theorem every_iteration_prints:
  "\<forall>p \<in> set ps. 201 / 2 < clock p \<Longrightarrow> last_progress_update st \<le> 100 \<Longrightarrow>
   snd (monitor_loop n e st ps) = StillPolling \<Longrightarrow>
   length (fst (monitor_loop n e st ps)) = length (observed_sizes ps)"
proof (induction ps arbitrary: st)
  case Nil
  then show ?case by simp
next
  case (Cons p ps)
  show ?case
  proof (cases "stop_is_set p")
    case True
    then show ?thesis using Cons.prems by simp
  next
    case False
    note run = this
    show ?thesis
    proof (cases "sample p")
      case None
      then show ?thesis using Cons run by simp
    next
      case (Some c)
      let ?r = "monitor_iteration n e st c (clock p)"
      have x: "exit_by ?r = None"
        using Cons.prems(3) run Some iteration_exit_cases [of n e st c "clock p"]
        by (cases "exit_by ?r") (auto simp: Let_def)
      obtain ev where ev: "emitted ?r = Some ev"
        using iteration_sends [OF Cons.prems(2), of "clock p" n e c] Cons.prems(1) by auto
      have "length (fst (monitor_loop n e (next_state ?r) ps)) = length (observed_sizes ps)"
        using Cons.prems run Some x iteration_last_progress [OF Cons.prems(2)]
        by (intro Cons.IH) (simp_all add: Let_def)
      then show ?thesis
        using run Some x ev by (simp add: Let_def stamp_def)
    qed
  qed
qed

theorem every_iteration_prints_witness:
  "list_all (\<lambda>p. 201 / 2 < clock p) stalled_polls
   \<and> last_progress_update (initial_state 1000) \<le> 100
   \<and> length (fst (monitor_loop ''tiny'' 1000 (initial_state 1000) stalled_polls))
       = length (observed_sizes stalled_polls)"
proof -
  have a: "\<forall>p \<in> set stalled_polls. 201 / 2 < clock p"
    by (auto simp: stalled_polls_def)
  have b: "last_progress_update (initial_state 1000) \<le> 100"
    by (simp add: initial_state_def)
  have c: "snd (monitor_loop ''tiny'' 1000 (initial_state 1000) stalled_polls) = StillPolling"
    by (simp add: stalled_polls_def monitor_iteration_def sample_def initial_state_def
      percentage_of_def stamp_def upt_rec Let_def)
  show ?thesis
    using every_iteration_prints [OF a b c] a b by (simp add: list_all_iff)
qed

end
